theory Spec2Isabelle
  imports Main "HOL-Library.Word"
begin

unbundle bit_operations_syntax

section \<open>Data model (uev.h, private.h)\<close>

text \<open>
  Pointers are addresses; \<open>None\<close> is the NULL pointer. Every non-null watcher pointer
  refers to a watcher object and every non-null context pointer to a context object, so
  the two heaps are total functions. A function that dereferences NULL has no defined
  behaviour in C; such a function returns an \<open>option\<close> here and \<open>None\<close> stands for
  that fault. A leading underscore of a C name is written \<open>i_\<close> (internal).
\<close>

type_synonym addr = nat
type_synonym u32 = "32 word"
type_synonym u64 = "64 word"

text \<open>The enumeration \<open>uev_type_t\<close>. \<open>UEV_NO_TYPE\<close> stands for every value
  outside the enumeration (a zeroed watcher has type 0); the dispatch loop's
  \<open>default:\<close> branch handles it.\<close>

datatype uev_type_t =
  UEV_NO_TYPE | UEV_IO_TYPE | UEV_TIMER_TYPE | UEV_TIMER_TS_TYPE | UEV_EVENT_TYPE

definition UEV_NONE :: u32 where "UEV_NONE = 0"
definition UEV_ERROR :: u32 where "UEV_ERROR = 1"
definition UEV_READ :: u32 where "UEV_READ = 2"
definition UEV_WRITE :: u32 where "UEV_WRITE = 4"
definition UEV_HUP :: u32 where "UEV_HUP = 8"

definition UEV_ONCE :: u32 where "UEV_ONCE = 1"
definition UEV_NONBLOCK :: u32 where "UEV_NONBLOCK = 2"

definition UEV_EVENT_MASK :: u32 where
  "UEV_EVENT_MASK = (UEV_ERROR OR UEV_READ OR UEV_WRITE)"

definition UEV_EG_BIT_IO :: u32 where "UEV_EG_BIT_IO = push_bit 0 1"
definition UEV_EG_BIT_EVENT :: u32 where "UEV_EG_BIT_EVENT = push_bit 1 1"
definition UEV_EG_BIT_TIMER :: u32 where "UEV_EG_BIT_TIMER = push_bit 2 1"
definition UEV_EG_MASK :: u32 where
  "UEV_EG_MASK = (UEV_EG_BIT_IO OR UEV_EG_BIT_EVENT OR UEV_EG_BIT_TIMER)"

text \<open>The two values of \<open>errno\<close> the library sets (errno.h).\<close>

definition EINVAL :: int where "EINVAL = 22"
definition ERANGE :: int where "ERANGE = 34"

text \<open>
  The watcher \<open>uev_t\<close>. The members of the union \<open>u\<close> are separate fields
  (\<open>t_\<close> for \<open>u.t\<close>, \<open>e_\<close> for \<open>u.e\<close>): the library reads \<open>u.t\<close> only of
  timers and \<open>u.e\<close> only of event watchers. \<open>t_lock\<close> counts how often the
  watcher's lock is held. A callback is a function pointer, \<open>None\<close> when NULL.
  The linkage \<open>iot.node\<close> is the membership in the selector's list below.
\<close>

record uev =
  w_next :: "addr option"
  w_prev :: "addr option"
  iot_events :: u32
  active :: int
  events :: u32
  cb :: "nat option"
  arg :: nat
  t_lock :: nat
  t_timeout :: int
  t_period :: int
  t_deadline :: u64
  e_posted :: int
  wtype :: uev_type_t
  fd :: int
  ctx :: "addr option"

text \<open>The context \<open>uev_ctx_t\<close>; \<open>egb\<close> holds the bits of the event group that
  the handle \<open>egh\<close> names.\<close>

record uev_ctx_t =
  running :: int
  egh :: "nat option"
  egb :: u32
  watchers :: "addr option"
  watchers_changed :: int

text \<open>
  The machine: both heaps, \<open>errno\<close>, the selector's list and the number of wake
  bytes sent to it, whether the caller runs in an interrupt handler, the nesting of the
  global critical section, and the environment: \<open>clock\<close> lists the successive results
  of \<open>esp_timer_get_time\<close> (\<open>reads\<close> of them consumed), and \<open>tick_ms\<close> is the
  configuration constant \<open>portTICK_PERIOD_MS\<close>.
\<close>

record st =
  heap :: "addr \<Rightarrow> uev"
  ctxs :: "addr \<Rightarrow> uev_ctx_t"
  errno :: int
  iolist :: "addr list"
  sent :: nat
  in_isr :: bool
  mux :: nat
  clock :: "nat \<Rightarrow> int"
  reads :: nat
  tick_ms :: u32

definition upd_w :: "addr \<Rightarrow> (uev \<Rightarrow> uev) \<Rightarrow> st \<Rightarrow> st" where
  "upd_w a f s = s\<lparr>heap := (heap s)(a := f (heap s a))\<rparr>"

definition upd_c :: "addr \<Rightarrow> (uev_ctx_t \<Rightarrow> uev_ctx_t) \<Rightarrow> st \<Rightarrow> st" where
  "upd_c c f s = s\<lparr>ctxs := (ctxs s)(c := f (ctxs s c))\<rparr>"

section \<open>List macros (private.h)\<close>

text \<open>\<open>_UEV_INSERT(node, c->watchers)\<close>: the node becomes the head.\<close>

definition UEV_INSERT :: "addr \<Rightarrow> addr \<Rightarrow> st \<Rightarrow> st" where
  "UEV_INSERT node c s =
     (let nxt = watchers (ctxs s c);
          s1 = upd_c c (\<lambda>x. x\<lparr>watchers := Some node\<rparr>) s;
          s2 = (case nxt of None \<Rightarrow> s1
                | Some n \<Rightarrow> upd_w n (\<lambda>x. x\<lparr>w_prev := Some node\<rparr>) s1);
          s3 = upd_w node (\<lambda>x. x\<lparr>w_next := nxt\<rparr>) s2
      in upd_w node (\<lambda>x. x\<lparr>w_prev := None\<rparr>) s3)"

text \<open>\<open>_UEV_REMOVE(node, c->watchers)\<close>: the neighbours are joined, the node's
  links are cleared, and the head moves on when the node was the head.\<close>

definition UEV_REMOVE :: "addr \<Rightarrow> addr \<Rightarrow> st \<Rightarrow> st" where
  "UEV_REMOVE node c s =
     (let prv = w_prev (heap s node);
          nxt = w_next (heap s node);
          s1 = (case prv of None \<Rightarrow> s
                | Some p \<Rightarrow> upd_w p (\<lambda>x. x\<lparr>w_next := nxt\<rparr>) s);
          s2 = (case nxt of None \<Rightarrow> s1
                | Some n \<Rightarrow> upd_w n (\<lambda>x. x\<lparr>w_prev := prv\<rparr>) s1);
          s3 = upd_w node (\<lambda>x. x\<lparr>w_prev := None\<rparr>) s2;
          s4 = upd_w node (\<lambda>x. x\<lparr>w_next := None\<rparr>) s3
      in if watchers (ctxs s4 c) = Some node
         then upd_c c (\<lambda>x. x\<lparr>watchers := nxt\<rparr>) s4 else s4)"

section \<open>Platform primitives\<close>

text \<open>\<open>_uev_critical_enter\<close>, \<open>_uev_critical_exit\<close>: the global critical section.\<close>

definition i_uev_critical_enter :: "st \<Rightarrow> st" where
  "i_uev_critical_enter s = s\<lparr>mux := Suc (mux s)\<rparr>"

definition i_uev_critical_exit :: "st \<Rightarrow> st" where
  "i_uev_critical_exit s = s\<lparr>mux := mux s - 1\<rparr>"

text \<open>\<open>_uev_lock_init\<close>, \<open>_uev_lock\<close>, \<open>_uev_unlock\<close> on the lock of a watcher.\<close>

definition i_uev_lock_init :: "addr \<Rightarrow> st \<Rightarrow> st" where
  "i_uev_lock_init a s = upd_w a (\<lambda>x. x\<lparr>t_lock := 0\<rparr>) s"

definition i_uev_lock :: "addr \<Rightarrow> st \<Rightarrow> st" where
  "i_uev_lock a s = upd_w a (\<lambda>x. x\<lparr>t_lock := Suc (t_lock x)\<rparr>) s"

definition i_uev_unlock :: "addr \<Rightarrow> st \<Rightarrow> st" where
  "i_uev_unlock a s = upd_w a (\<lambda>x. x\<lparr>t_lock := t_lock x - 1\<rparr>) s"

text \<open>Setting bits in the event group of a context, from a task and from an
  interrupt handler; \<open>_uev_set_flags\<close> chooses between the two.\<close>

definition xEventGroupSetBits :: "addr \<Rightarrow> u32 \<Rightarrow> st \<Rightarrow> st" where
  "xEventGroupSetBits c bits s = upd_c c (\<lambda>x. x\<lparr>egb := egb x OR bits\<rparr>) s"

definition xEventGroupSetBitsFromISR :: "addr \<Rightarrow> u32 \<Rightarrow> st \<Rightarrow> st" where
  "xEventGroupSetBitsFromISR c bits s = upd_c c (\<lambda>x. x\<lparr>egb := egb x OR bits\<rparr>) s"

definition i_uev_set_flags :: "addr \<Rightarrow> u32 \<Rightarrow> st \<Rightarrow> st" where
  "i_uev_set_flags c bits s =
     (if in_isr s then xEventGroupSetBitsFromISR c bits s
      else xEventGroupSetBits c bits s)"

text \<open>The clock: \<open>esp_timer_get_time\<close> yields the next reading of the
  environment, and \<open>_uev_timer_now\<close> maps a reading that is not positive to 0.\<close>

definition esp_timer_get_time :: "st \<Rightarrow> int \<times> st" where
  "esp_timer_get_time s = (clock s (reads s), s\<lparr>reads := Suc (reads s)\<rparr>)"

definition i_uev_timer_now :: "st \<Rightarrow> u64 \<times> st" where
  "i_uev_timer_now s =
     (let (now, s1) = esp_timer_get_time s
      in if now \<le> 0 then (0, s1) else (word_of_int now, s1))"

section \<open>The selector's list (iothread.c)\<close>

text \<open>\<open>_uev_iothread_interrupt\<close> sends one byte to the wake socket.\<close>

definition i_uev_iothread_interrupt :: "st \<Rightarrow> st" where
  "i_uev_iothread_interrupt s = s\<lparr>sent := Suc (sent s)\<rparr>"

text \<open>Modelled from the spec: \<open>list_add_tail\<close> and \<open>list_delete\<close> of the
  header \<open>list.h\<close>, which is not among the sources; the selector's doubly-linked
  list of I/O watchers is the list \<open>iolist\<close>, in the order of insertion.\<close>

definition list_add_tail :: "addr \<Rightarrow> st \<Rightarrow> st" where
  "list_add_tail a s = s\<lparr>iolist := iolist s @ [a]\<rparr>"

definition list_delete :: "addr \<Rightarrow> st \<Rightarrow> st" where
  "list_delete a s = s\<lparr>iolist := remove1 a (iolist s)\<rparr>"

definition i_uev_iothread_watcher_add :: "addr \<Rightarrow> st \<Rightarrow> st" where
  "i_uev_iothread_watcher_add a s =
     i_uev_iothread_interrupt
       (i_uev_critical_exit (list_add_tail a (i_uev_critical_enter s)))"

definition i_uev_iothread_watcher_remove :: "addr \<Rightarrow> st \<Rightarrow> st" where
  "i_uev_iothread_watcher_remove a s =
     i_uev_iothread_interrupt
       (i_uev_critical_exit (list_delete a (i_uev_critical_enter s)))"

section \<open>Generic watchers (uev.c)\<close>

definition i_uev_watcher_active :: "addr option \<Rightarrow> st \<Rightarrow> int" where
  "i_uev_watcher_active w s =
     (case w of None \<Rightarrow> 0
      | Some a \<Rightarrow> if active (heap s a) > 0 then 1 else 0)"

definition i_uev_watcher_init ::
  "addr option \<Rightarrow> addr option \<Rightarrow> uev_type_t \<Rightarrow> nat option \<Rightarrow> nat \<Rightarrow> int \<Rightarrow> u32
     \<Rightarrow> st \<Rightarrow> int \<times> st" where
  "i_uev_watcher_init c w ty cbf ar f ev s =
     (case c of None \<Rightarrow> (- 1, s\<lparr>errno := EINVAL\<rparr>)
      | Some ca \<Rightarrow>
     (case w of None \<Rightarrow> (- 1, s\<lparr>errno := EINVAL\<rparr>)
      | Some a \<Rightarrow>
        let s1 = upd_w a (\<lambda>x. x\<lparr>ctx := Some ca, wtype := ty, active := 0, fd := f,
                                  cb := cbf, arg := ar, events := ev\<rparr>) s;
            s2 = upd_w a (\<lambda>x. x\<lparr>iot_events := 0\<rparr>) s1;
            s3 = (if wtype (heap s2 a) = UEV_TIMER_TS_TYPE
                  then UEV_INSERT a ca s2 else s2)
        in (0, s3)))"

definition i_uev_watcher_start :: "addr option \<Rightarrow> st \<Rightarrow> int \<times> st" where
  "i_uev_watcher_start w s =
     (case w of None \<Rightarrow> (- 1, s\<lparr>errno := EINVAL\<rparr>)
      | Some a \<Rightarrow>
     (case ctx (heap s a) of None \<Rightarrow> (- 1, s\<lparr>errno := EINVAL\<rparr>)
      | Some c \<Rightarrow>
        if wtype (heap s a) = UEV_IO_TYPE \<and> fd (heap s a) < 0
        then (- 1, s\<lparr>errno := EINVAL\<rparr>)
        else if i_uev_watcher_active w s \<noteq> 0 then (0, s)
        else
          let s1 = upd_w a (\<lambda>x. x\<lparr>active := 1\<rparr>) s;
              s2 = (if wtype (heap s1 a) = UEV_IO_TYPE
                    then i_uev_iothread_watcher_add a s1 else s1);
              s3 = (if wtype (heap s2 a) \<noteq> UEV_TIMER_TS_TYPE
                    then UEV_INSERT a c s2 else s2)
          in (0, s3)))"

text \<open>\<open>_uev_watcher_stop\<close> reads \<open>w->ctx->watchers\<close> when it unlinks: a NULL
  context is a fault there.\<close>

definition i_uev_watcher_stop :: "addr option \<Rightarrow> st \<Rightarrow> (int \<times> st) option" where
  "i_uev_watcher_stop w s =
     (case w of None \<Rightarrow> Some (- 1, s\<lparr>errno := EINVAL\<rparr>)
      | Some a \<Rightarrow>
        if i_uev_watcher_active w s = 0 then Some (0, s)
        else
          let s1 = upd_w a (\<lambda>x. x\<lparr>active := 0\<rparr>) s;
              s2 = (if wtype (heap s1 a) = UEV_IO_TYPE
                    then i_uev_iothread_watcher_remove a s1 else s1)
          in if wtype (heap s2 a) \<noteq> UEV_TIMER_TS_TYPE
             then (case ctx (heap s2 a) of None \<Rightarrow> None
                   | Some c \<Rightarrow> Some (0, UEV_REMOVE a c s2))
             else Some (0, s2))"

section \<open>Timers (timer.c)\<close>

definition uev_timer_set :: "addr option \<Rightarrow> int \<Rightarrow> int \<Rightarrow> st \<Rightarrow> int \<times> st" where
  "uev_timer_set w timeout period s =
     (case w of None \<Rightarrow> (- 1, s\<lparr>errno := EINVAL\<rparr>)
      | Some a \<Rightarrow>
     (case ctx (heap s a) of None \<Rightarrow> (- 1, s\<lparr>errno := EINVAL\<rparr>)
      | Some c \<Rightarrow>
        if timeout < 0 \<or> period < 0 then (- 1, s\<lparr>errno := ERANGE\<rparr>)
        else
          let (now, s1) = i_uev_timer_now s;
              s2 = (if wtype (heap s1 a) = UEV_TIMER_TS_TYPE then i_uev_lock a s1 else s1);
              s3 = upd_w a (\<lambda>x. x\<lparr>t_timeout := timeout\<rparr>) s2;
              s4 = upd_w a (\<lambda>x. x\<lparr>t_period := period\<rparr>) s3;
              s5 = (if running (ctxs s4 c) \<noteq> 0 \<and> t_timeout (heap s4 a) \<noteq> 0
                    then upd_w a (\<lambda>x. x\<lparr>t_deadline := now div 1000 + word_of_int timeout\<rparr>) s4
                    else upd_w a (\<lambda>x. x\<lparr>t_deadline := 0\<rparr>) s4);
              s6 = (if wtype (heap s5 a) = UEV_TIMER_TS_TYPE then i_uev_unlock a s5 else s5);
              s7 = i_uev_set_flags c UEV_EG_BIT_TIMER s6
          in i_uev_watcher_start w s7))"

definition uev_timer_init2 ::
  "addr option \<Rightarrow> addr option \<Rightarrow> nat option \<Rightarrow> nat \<Rightarrow> int \<Rightarrow> int \<Rightarrow> int
     \<Rightarrow> st \<Rightarrow> (int \<times> st) option" where
  "uev_timer_init2 c w cbf ar timeout period threadsafe s =
     (if timeout < 0 \<or> period < 0 then Some (- 1, s\<lparr>errno := ERANGE\<rparr>)
      else case w of None \<Rightarrow> None
      | Some a \<Rightarrow>
        let s1 = i_uev_lock_init a s;
            (r2, s2) = i_uev_watcher_init c w
                         (if threadsafe \<noteq> 0 then UEV_TIMER_TS_TYPE else UEV_TIMER_TYPE)
                         cbf ar (- 1) UEV_READ s1
        in if r2 \<noteq> 0 then Some (- 1, s2)
           else
             let (r3, s3) = uev_timer_set w timeout period s2
             in if r3 \<noteq> 0
                then (case i_uev_watcher_stop w s3 of None \<Rightarrow> None
                      | Some (r4, s4) \<Rightarrow> Some (- 1, s4))
                else Some (0, s3))"

definition uev_timer_init ::
  "addr option \<Rightarrow> addr option \<Rightarrow> nat option \<Rightarrow> nat \<Rightarrow> int \<Rightarrow> int
     \<Rightarrow> st \<Rightarrow> (int \<times> st) option" where
  "uev_timer_init c w cbf ar timeout period s =
     uev_timer_init2 c w cbf ar timeout period 0 s"

definition uev_timer_start :: "addr option \<Rightarrow> st \<Rightarrow> (int \<times> st) option" where
  "uev_timer_start w s =
     (case w of None \<Rightarrow> Some (- 1, s\<lparr>errno := EINVAL\<rparr>)
      | Some a \<Rightarrow>
        (case (if fd (heap s a) \<noteq> - 1 then i_uev_watcher_stop w s else Some (0, s)) of
           None \<Rightarrow> None
         | Some (r1, s1) \<Rightarrow>
             Some (uev_timer_set w (t_timeout (heap s1 a)) (t_period (heap s1 a)) s1)))"

definition i_uev_timer_stop :: "addr option \<Rightarrow> st \<Rightarrow> (int \<times> st) option" where
  "i_uev_timer_stop w s =
     (if i_uev_watcher_active w s = 0 then Some (0, s)
      else case i_uev_watcher_stop w s of None \<Rightarrow> None
           | Some (r, s1) \<Rightarrow> if r \<noteq> 0 then Some (- 1, s1) else Some (0, s1))"

text \<open>\<open>uev_timer_stop\<close> unlinks the watcher after the internal stop, whatever its
  type and whether or not it was active; it reads \<open>w->ctx->watchers\<close> of a NULL
  watcher or context.\<close>

definition uev_timer_stop :: "addr option \<Rightarrow> st \<Rightarrow> (int \<times> st) option" where
  "uev_timer_stop w s =
     (case i_uev_timer_stop w s of None \<Rightarrow> None
      | Some (rc, s1) \<Rightarrow>
          if rc \<noteq> 0 then Some (rc, s1)
          else (case w of None \<Rightarrow> None
                | Some a \<Rightarrow>
                  (case ctx (heap s1 a) of None \<Rightarrow> None
                   | Some c \<Rightarrow> Some (0, UEV_REMOVE a c s1))))"

section \<open>Event watchers (event.c)\<close>

definition uev_event_init ::
  "addr option \<Rightarrow> addr option \<Rightarrow> nat option \<Rightarrow> nat \<Rightarrow> st \<Rightarrow> int \<times> st" where
  "uev_event_init c w cbf ar s =
     (case w of None \<Rightarrow> (- 1, s\<lparr>errno := EINVAL\<rparr>)
      | Some a \<Rightarrow>
     (case c of None \<Rightarrow> (- 1, s\<lparr>errno := EINVAL\<rparr>)
      | Some ca \<Rightarrow>
        let s1 = upd_w a (\<lambda>x. x\<lparr>e_posted := 0\<rparr>) s;
            (r2, s2) = i_uev_watcher_init c w UEV_EVENT_TYPE cbf ar (- 1) UEV_READ s1
        in if r2 \<noteq> 0 then (1, s2)
           else let (r3, s3) = i_uev_watcher_start w s2
                in (if r3 \<noteq> 0 then 1 else 0, s3)))"

definition uev_event_post :: "addr option \<Rightarrow> st \<Rightarrow> (int \<times> st) option" where
  "uev_event_post w s =
     (case w of None \<Rightarrow> Some (- 1, s\<lparr>errno := EINVAL\<rparr>)
      | Some a \<Rightarrow>
        let s1 = upd_w a (\<lambda>x. x\<lparr>e_posted := 1\<rparr>) s
        in (case ctx (heap s1 a) of None \<Rightarrow> None
            | Some c \<Rightarrow> Some (0, i_uev_set_flags c UEV_EG_BIT_EVENT s1)))"

definition uev_event_stop :: "addr option \<Rightarrow> st \<Rightarrow> (int \<times> st) option" where
  "uev_event_stop w s =
     (if i_uev_watcher_active w s = 0 then Some (0, s)
      else case i_uev_watcher_stop w s of None \<Rightarrow> None
           | Some (r, s1) \<Rightarrow> if r \<noteq> 0 then Some (- 1, s1) else Some (0, s1))"

section \<open>The selector task (iothread.c)\<close>

text \<open>The three descriptor sets that \<open>select\<close> fills: \<open>FD_ISSET\<close> is membership.\<close>

record fdsets =
  readfds :: "int set"
  writefds :: "int set"
  exceptfds :: "int set"

text \<open>
  The body of the second loop of \<open>task_fn\<close>, which runs over the selector's list
  after \<open>select\<close> has returned: the bits of one watcher are collected from the sets,
  each only when the watcher asked for it, and a result that is not empty is ORed into
  the pending word and wakes the context. \<open>_uev_set_flags\<close> reads \<open>w->ctx->egh\<close>:
  a NULL context is a fault.
\<close>

definition task_fn_events :: "fdsets \<Rightarrow> addr \<Rightarrow> st \<Rightarrow> u32" where
  "task_fn_events fds a s =
     (let e0 = 0;
          e1 = (if fd (heap s a) \<in> readfds fds \<and> events (heap s a) AND UEV_READ \<noteq> 0
                then e0 OR UEV_READ else e0);
          e2 = (if fd (heap s a) \<in> writefds fds \<and> events (heap s a) AND UEV_WRITE \<noteq> 0
                then e1 OR UEV_WRITE else e1)
      in if fd (heap s a) \<in> exceptfds fds \<and> events (heap s a) AND UEV_ERROR \<noteq> 0
         then e2 OR UEV_ERROR else e2)"

definition task_fn_collect1 :: "fdsets \<Rightarrow> addr \<Rightarrow> st \<Rightarrow> st option" where
  "task_fn_collect1 fds a s =
     (if i_uev_watcher_active (Some a) s = 0 then Some s
      else if fd (heap s a) < 0 then Some s
      else
        let evs = task_fn_events fds a s
        in if evs \<noteq> 0
           then (let s1 = upd_w a (\<lambda>x. x\<lparr>iot_events := iot_events x OR evs\<rparr>) s
                 in (case ctx (heap s1 a) of None \<Rightarrow> None
                     | Some c \<Rightarrow> Some (i_uev_set_flags c UEV_EG_BIT_IO s1)))
           else Some s)"

fun list_for_every_entry :: "(addr \<Rightarrow> st \<Rightarrow> st option) \<Rightarrow> addr list \<Rightarrow> st \<Rightarrow> st option" where
  "list_for_every_entry body [] s = Some s"
| "list_for_every_entry body (a # as) s =
     (case body a s of None \<Rightarrow> None
      | Some s1 \<Rightarrow> list_for_every_entry body as s1)"

definition task_fn_collect :: "fdsets \<Rightarrow> st \<Rightarrow> st option" where
  "task_fn_collect fds s =
     (case list_for_every_entry (task_fn_collect1 fds) (iolist s) (i_uev_critical_enter s) of
        None \<Rightarrow> None
      | Some s1 \<Rightarrow> Some (i_uev_critical_exit s1))"

section \<open>The dispatch loop (uev.c)\<close>

text \<open>
  The sources hold two versions of \<open>uev.c\<close>; the model follows the one with I/O
  watchers and the selector, whose loop stops an expired timer with the internal
  \<open>_uev_timer_stop\<close>.

  A user callback is code outside the library: \<open>user f w arg events\<close> is what the
  function behind the pointer \<open>f\<close> does to the state. Every call is also written to a
  trace of (watcher, argument, events) that no callback can change.
\<close>

type_synonym user = "nat \<Rightarrow> addr \<Rightarrow> nat \<Rightarrow> u32 \<Rightarrow> st \<Rightarrow> st"
type_synonym trace = "(addr \<times> nat \<times> u32) list"

definition FOREVER :: u64 where "FOREVER = 0xffffffffffffffff"
definition portMAX_DELAY :: u32 where "portMAX_DELAY = 0xffffffff"

text \<open>The body of the entry loop of \<open>uev_run\<close> that starts the dormant timers.\<close>

definition uev_run_rearm1 :: "addr \<Rightarrow> u64 \<Rightarrow> st \<Rightarrow> u64 \<times> st" where
  "uev_run_rearm1 a next_deadline s =
     (if wtype (heap s a) = UEV_TIMER_TYPE \<or> wtype (heap s a) = UEV_TIMER_TS_TYPE
      then
        let (r, s1) = uev_timer_set (Some a) (t_timeout (heap s a)) (t_period (heap s a)) s
        in if t_deadline (heap s1 a) < next_deadline
           then (t_deadline (heap s1 a), s1) else (next_deadline, s1)
      else (next_deadline, s))"

text \<open>\<open>_UEV_FOREACH\<close> follows the \<open>next\<close> pointers and reads the pointer of a node
  before the body runs. A list in the heap can be cyclic, so the walk has fuel: \<open>None\<close>
  when it has not reached NULL after \<open>n\<close> nodes.\<close>

fun uev_run_rearm :: "nat \<Rightarrow> addr option \<Rightarrow> u64 \<Rightarrow> st \<Rightarrow> (u64 \<times> st) option" where
  "uev_run_rearm n None next_deadline s = Some (next_deadline, s)"
| "uev_run_rearm 0 (Some a) next_deadline s = None"
| "uev_run_rearm (Suc n) (Some a) next_deadline s =
     (let nxt = w_next (heap s a);
          (nd1, s1) = uev_run_rearm1 a next_deadline s
      in uev_run_rearm n nxt nd1 s1)"

text \<open>The case of the two timer types in the switch of the dispatch loop. The result
  is \<open>runcb\<close>, \<open>events\<close>, \<open>next_deadline\<close> and the state.\<close>

definition dispatch_timer :: "addr \<Rightarrow> u64 \<Rightarrow> st \<Rightarrow> (bool \<times> u32 \<times> u64 \<times> st) option" where
  "dispatch_timer a next_deadline s =
     (let (now_us, s1) = i_uev_timer_now s;
          now = now_us div 1000;
          s2 = (if wtype (heap s1 a) = UEV_TIMER_TS_TYPE then i_uev_critical_enter s1 else s1);
          fire = (now > 0 \<and> t_deadline (heap s2 a) \<noteq> 0 \<and> now > t_deadline (heap s2 a));
          r3 = (if fire
                then
                  (let s2a = (if t_period (heap s2 a) = 0
                              then upd_w a (\<lambda>x. x\<lparr>t_timeout := 0\<rparr>) s2 else s2)
                   in if t_timeout (heap s2a a) = 0
                      then map_option snd (i_uev_timer_stop (Some a) s2a)
                      else Some (upd_w a (\<lambda>x. x\<lparr>t_deadline :=
                                   now + word_of_int (t_period (heap s2a a))\<rparr>) s2a))
                else Some s2)
      in case r3 of None \<Rightarrow> None
         | Some s3 \<Rightarrow>
             let nd1 = (if t_deadline (heap s3 a) \<noteq> 0 \<and> t_deadline (heap s3 a) < next_deadline
                        then t_deadline (heap s3 a) else next_deadline);
                 s4 = (if wtype (heap s3 a) = UEV_TIMER_TS_TYPE
                       then i_uev_critical_exit s3 else s3)
             in Some (fire, if fire then UEV_READ else 0, nd1, s4))"

text \<open>The switch on the type of the watcher; \<open>atomic_exchange\<close> of the posted flag
  reads the flag and stores 0. The \<open>default\<close> case leaves the body with
  \<open>continue\<close>, which is the same as no callback.\<close>

definition dispatch_switch :: "u32 \<Rightarrow> addr \<Rightarrow> u64 \<Rightarrow> st \<Rightarrow> (bool \<times> u32 \<times> u64 \<times> st) option" where
  "dispatch_switch bits a next_deadline s =
     (case wtype (heap s a) of
        UEV_EVENT_TYPE \<Rightarrow>
          if bits AND UEV_EG_BIT_EVENT = 0 then Some (False, 0, next_deadline, s)
          else
            (let posted = e_posted (heap s a);
                 s1 = upd_w a (\<lambda>x. x\<lparr>e_posted := 0\<rparr>) s
             in if posted \<noteq> 0 then Some (True, UEV_READ, next_deadline, s1)
                else Some (False, 0, next_deadline, s1))
      | UEV_TIMER_TS_TYPE \<Rightarrow> dispatch_timer a next_deadline s
      | UEV_TIMER_TYPE \<Rightarrow> dispatch_timer a next_deadline s
      | UEV_IO_TYPE \<Rightarrow>
          if bits AND UEV_EG_BIT_IO = 0 then Some (False, 0, next_deadline, s)
          else
            (let ioevents = iot_events (heap s a)
             in if ioevents \<noteq> 0 then Some (True, 0 OR ioevents, next_deadline, s)
                else Some (False, 0, next_deadline, s))
      | UEV_NO_TYPE \<Rightarrow> Some (False, 0, next_deadline, s))"

text \<open>The body of the sweep for one watcher: the switch, then the callback when one
  is due and the pointer is not NULL, then for an I/O watcher the delivered bits are
  cleared from the pending word and the selector is woken.\<close>

definition dispatch_watcher ::
  "user \<Rightarrow> u32 \<Rightarrow> addr \<Rightarrow> u64 \<Rightarrow> st \<Rightarrow> trace \<Rightarrow> (u64 \<times> st \<times> trace) option" where
  "dispatch_watcher user bits a next_deadline s tr =
     (if active (heap s a) = 0 then Some (next_deadline, s, tr)
      else
        (case dispatch_switch bits a next_deadline s of None \<Rightarrow> None
         | Some (runcb, evs, nd1, s1) \<Rightarrow>
             (case cb (heap s1 a) of
                Some f \<Rightarrow>
                  if runcb
                  then
                    (let ev = evs AND UEV_EVENT_MASK;
                         s2 = user f a (arg (heap s1 a)) ev s1;
                         s3 = (if wtype (heap s2 a) = UEV_IO_TYPE
                               then i_uev_iothread_interrupt
                                      (upd_w a (\<lambda>x. x\<lparr>iot_events := iot_events x AND NOT evs\<rparr>) s2)
                               else s2)
                     in Some (nd1, s3, tr @ [(a, arg (heap s1 a), ev)]))
                  else Some (nd1, s1, tr)
              | None \<Rightarrow> Some (nd1, s1, tr))))"

fun sweep ::
  "user \<Rightarrow> u32 \<Rightarrow> nat \<Rightarrow> addr option \<Rightarrow> u64 \<Rightarrow> st \<Rightarrow> trace \<Rightarrow> (u64 \<times> st \<times> trace) option" where
  "sweep user bits n None next_deadline s tr = Some (next_deadline, s, tr)"
| "sweep user bits 0 (Some a) next_deadline s tr = None"
| "sweep user bits (Suc n) (Some a) next_deadline s tr =
     (let nxt = w_next (heap s a)
      in (case dispatch_watcher user bits a next_deadline s tr of None \<Rightarrow> None
          | Some (nd1, s1, tr1) \<Rightarrow> sweep user bits n nxt nd1 s1 tr1))"

text \<open>The number of ticks the loop waits; the quotient is cut to the 32 bits of
  \<open>TickType_t\<close>.\<close>

definition tickstowait :: "u64 \<Rightarrow> u64 \<Rightarrow> st \<Rightarrow> u32" where
  "tickstowait next_deadline now s =
     (if next_deadline = FOREVER then portMAX_DELAY
      else if now \<ge> next_deadline then 0
      else if next_deadline \<noteq> 0 then ucast ((next_deadline - now) div ucast (tick_ms s))
      else 0)"

text \<open>
  Modelled from the spec: \<open>xEventGroupWaitBits\<close> of FreeRTOS, called with clear-on-exit
  and any-of: it returns at once when a bit of the mask is set or when it may not wait;
  otherwise the caller sleeps while the other tasks and interrupt handlers run
  (\<open>others\<close>), and wakes with the bits they have set, or at the timeout. The bits of
  the mask that it saw are cleared. With \<open>portMAX_DELAY\<close> and no bit set it never
  wakes: \<open>None\<close>.
\<close>

definition xEventGroupWaitBits ::
  "(st \<Rightarrow> st) \<Rightarrow> addr \<Rightarrow> u32 \<Rightarrow> u32 \<Rightarrow> st \<Rightarrow> (u32 \<times> st) option" where
  "xEventGroupWaitBits others c msk ticks s =
     (let cur = egb (ctxs s c)
      in if cur AND msk \<noteq> 0
         then Some (cur, upd_c c (\<lambda>x. x\<lparr>egb := cur AND NOT msk\<rparr>) s)
         else if ticks = 0 then Some (cur, s)
         else
           (let s1 = others s;
                b = egb (ctxs s1 c)
            in if b AND msk \<noteq> 0
               then Some (b, upd_c c (\<lambda>x. x\<lparr>egb := b AND NOT msk\<rparr>) s1)
               else if ticks = portMAX_DELAY then None
               else Some (b, s1)))"

text \<open>One iteration of the loop of \<open>uev_run\<close>: the wait, then the sweep.\<close>

definition uev_run_iteration ::
  "user \<Rightarrow> (st \<Rightarrow> st) \<Rightarrow> nat \<Rightarrow> addr \<Rightarrow> u64 \<Rightarrow> st \<Rightarrow> trace \<Rightarrow> (u64 \<times> st \<times> trace) option" where
  "uev_run_iteration user others n c next_deadline s tr =
     (let (now_us, s1) = i_uev_timer_now s;
          now = now_us div 1000
      in (case xEventGroupWaitBits others c UEV_EG_MASK (tickstowait next_deadline now s1) s1 of
            None \<Rightarrow> None
          | Some (bits, s2) \<Rightarrow> sweep user bits n (watchers (ctxs s2 c)) FOREVER s2 tr))"

text \<open>The loop runs while the context is running; it has fuel \<open>k\<close> (iterations),
  and \<open>tasks i\<close> is what the other tasks do during the wait of iteration \<open>i\<close>.\<close>

fun uev_run_loop ::
  "user \<Rightarrow> (nat \<Rightarrow> st \<Rightarrow> st) \<Rightarrow> nat \<Rightarrow> nat \<Rightarrow> nat \<Rightarrow> addr \<Rightarrow> u32 \<Rightarrow> u64 \<Rightarrow> st \<Rightarrow> trace
     \<Rightarrow> (st \<times> trace) option" where
  "uev_run_loop user tasks n 0 i c flags next_deadline s tr =
     (if running (ctxs s c) = 0 then Some (s, tr) else None)"
| "uev_run_loop user tasks n (Suc k) i c flags next_deadline s tr =
     (if running (ctxs s c) = 0 then Some (s, tr)
      else
        (case uev_run_iteration user (tasks i) n c next_deadline s tr of None \<Rightarrow> None
         | Some (nd1, s1, tr1) \<Rightarrow>
             if flags AND UEV_ONCE \<noteq> 0 then Some (s1, tr1)
             else uev_run_loop user tasks n k (Suc i) c flags nd1 s1 tr1))"

text \<open>\<open>uev_run\<close>: \<open>None\<close> when a list walk or the loop runs out of fuel, when the
  wait never wakes, or on a fault; otherwise the return value, the state and the trace
  of the callbacks.\<close>

definition uev_run ::
  "user \<Rightarrow> (nat \<Rightarrow> st \<Rightarrow> st) \<Rightarrow> nat \<Rightarrow> nat \<Rightarrow> addr option \<Rightarrow> u32 \<Rightarrow> st
     \<Rightarrow> (int \<times> st \<times> trace) option" where
  "uev_run user tasks n k c flags s =
     (case c of None \<Rightarrow> Some (- 1, s\<lparr>errno := EINVAL\<rparr>, [])
      | Some ca \<Rightarrow>
          if egh (ctxs s ca) = None then Some (- 1, s\<lparr>errno := EINVAL\<rparr>, [])
          else
            (let nd0 = (if flags AND UEV_NONBLOCK \<noteq> 0 then 0 else FOREVER);
                 s1 = upd_c ca (\<lambda>x. x\<lparr>running := 1\<rparr>) s
             in (case uev_run_rearm n (watchers (ctxs s1 ca)) nd0 s1 of None \<Rightarrow> None
                 | Some (nd1, s2) \<Rightarrow>
                     (case uev_run_loop user tasks n k 0 ca flags nd1 s2 [] of None \<Rightarrow> None
                      | Some (s3, tr) \<Rightarrow> Some (0, s3, tr)))))"

section \<open>The watcher list of a context\<close>

text \<open>
  \<open>dll h pr p xs\<close>: in the heap \<open>h\<close> the \<open>next\<close> pointers lead from \<open>p\<close> through
  exactly the nodes \<open>xs\<close> to NULL, and every \<open>prev\<close> pointer names the node before
  (\<open>pr\<close> for the first). \<open>wlist s c xs\<close>: the watcher list of the context \<open>c\<close> is
  \<open>xs\<close>, from the head, each watcher once. A watcher is linked when it is in \<open>xs\<close>.
\<close>

fun dll :: "(addr \<Rightarrow> uev) \<Rightarrow> addr option \<Rightarrow> addr option \<Rightarrow> addr list \<Rightarrow> bool" where
  "dll h pr p [] = (p = None)"
| "dll h pr p (x # xs) =
     (p = Some x \<and> w_prev (h x) = pr \<and> dll h (Some x) (w_next (h x)) xs)"

definition wlist :: "st \<Rightarrow> addr \<Rightarrow> addr list \<Rightarrow> bool" where
  "wlist s c xs = (dll (heap s) None (watchers (ctxs s c)) xs \<and> distinct xs)"

section \<open>Repeated calls and interleavings\<close>

text \<open>\<open>uev_event_post_times n w\<close>: the call \<open>uev_event_post(w)\<close> made \<open>n\<close> times
  in a row.\<close>

fun uev_event_post_times :: "nat \<Rightarrow> addr option \<Rightarrow> st \<Rightarrow> st option" where
  "uev_event_post_times 0 w s = Some s"
| "uev_event_post_times (Suc n) w s =
     (case uev_event_post w s of None \<Rightarrow> None
      | Some (r, s1) \<Rightarrow> uev_event_post_times n w s1)"

text \<open>
  The life of one I/O watcher \<open>a\<close> between the selector and the dispatcher: a list
  of steps, each either one round of the selector that ends with the given descriptor
  sets (\<open>Select\<close>) or the dispatch of the watcher in a sweep with the given wake bits
  and deadline (\<open>Dispatch\<close>). \<open>io_run\<close> runs the steps in order and collects the
  trace of the callbacks.
\<close>

datatype io_step = Select fdsets | Dispatch u32 u64

fun io_run :: "user \<Rightarrow> addr \<Rightarrow> io_step list \<Rightarrow> st \<Rightarrow> trace \<Rightarrow> (st \<times> trace) option" where
  "io_run user a [] s tr = Some (s, tr)"
| "io_run user a (Select fds # steps) s tr =
     (case task_fn_collect fds s of None \<Rightarrow> None
      | Some s1 \<Rightarrow> io_run user a steps s1 tr)"
| "io_run user a (Dispatch bits nd # steps) s tr =
     (case dispatch_watcher user bits a nd s tr of None \<Rightarrow> None
      | Some (nd1, s1, tr1) \<Rightarrow> io_run user a steps s1 tr1)"

section \<open>What a run shows of one watcher\<close>




section \<open>An example machine\<close>

text \<open>
  A machine for concrete runs: every watcher is zeroed memory, every context is as
  \<open>uev_init\<close> leaves it (not running, an event group with no bit set, no watcher), the
  clock reads one second at the first reading and one second more at each further one,
  and a tick is one millisecond. \<open>no_user\<close> is a callback that does nothing and
  \<open>no_tasks\<close> a wait during which no other task runs.
\<close>

definition w0 :: uev where
  "w0 = \<lparr>w_next = None, w_prev = None, iot_events = 0, active = 0, events = 0,
         cb = None, arg = 0, t_lock = 0, t_timeout = 0, t_period = 0, t_deadline = 0,
         e_posted = 0, wtype = UEV_NO_TYPE, fd = 0, ctx = None\<rparr>"

definition c0 :: uev_ctx_t where
  "c0 = \<lparr>running = 0, egh = Some 1, egb = 0, watchers = None, watchers_changed = 0\<rparr>"

definition s0 :: st where
  "s0 = \<lparr>heap = (\<lambda>a. w0), ctxs = (\<lambda>c. c0), errno = 0, iolist = [], sent = 0,
         in_isr = False, mux = 0, clock = (\<lambda>n. 1000000 + 1000000 * int n), reads = 0,
         tick_ms = 1\<rparr>"

definition no_user :: user where
  "no_user f w x ev s = s"

definition no_tasks :: "nat \<Rightarrow> st \<Rightarrow> st" where
  "no_tasks i s = s"

text \<open>
  States of the example machine that the library reaches (the lemmas \<open>s_timer_init\<close>
  to \<open>s_io_start\<close> below say how). The timer is the watcher at address 1 of the
  context 0, with callback 7:
  \<^item> \<open>s_timer\<close>: after \<open>uev_timer_init\<close> with timeout 10 and period 20;
  \<^item> \<open>s_stopped\<close>: after \<open>uev_timer_stop\<close> in \<open>s_timer\<close>;
  \<^item> \<open>s_armed\<close>: after \<open>uev_run\<close> has set the running flag in \<open>s_timer\<close> and
    started the dormant timers; the clock read 2000 ms;
  \<^item> \<open>s_ts\<close>: after \<open>uev_timer_init2\<close> of a threadsafe one-shot timer, timeout 50;
  \<^item> \<open>s_dormant\<close>: after \<open>uev_timer_init\<close> with timeout 0 and period 100, and
    \<open>s_dormant_run\<close>: \<open>s_dormant\<close> with the running flag set.
  \<open>s_event\<close> has an event watcher at address 3 (\<open>uev_event_init\<close>, callback 8), and
  \<open>s_io\<close> an I/O watcher at address 2 for descriptor 5 that asks for READ only
  (callback 9), initialised and started.
\<close>

definition w_timer :: uev where
  "w_timer = w0\<lparr>wtype := UEV_TIMER_TYPE, active := 1, ctx := Some 0, t_timeout := 10,
     t_period := 20, t_deadline := 0, cb := Some 7, fd := - 1, events := UEV_READ\<rparr>"

definition s_timer :: st where
  "s_timer = s0\<lparr>heap := (heap s0)(1 := w_timer),
     ctxs := (ctxs s0)(0 := c0\<lparr>watchers := Some 1, egb := UEV_EG_BIT_TIMER\<rparr>),
     reads := 1\<rparr>"

definition s_stopped :: st where
  "s_stopped = s0\<lparr>heap := (heap s0)(1 := w_timer\<lparr>active := 0\<rparr>),
     ctxs := (ctxs s0)(0 := c0\<lparr>watchers := None, egb := UEV_EG_BIT_TIMER\<rparr>),
     reads := 1\<rparr>"

definition s_armed :: st where
  "s_armed = s0\<lparr>heap := (heap s0)(1 := w_timer\<lparr>t_deadline := 2010\<rparr>),
     ctxs := (ctxs s0)(0 := c0\<lparr>running := 1, watchers := Some 1, egb := UEV_EG_BIT_TIMER\<rparr>),
     reads := 2\<rparr>"

definition s_ts :: st where
  "s_ts = s0\<lparr>heap := (heap s0)(1 := w_timer\<lparr>wtype := UEV_TIMER_TS_TYPE, t_timeout := 50,
       t_period := 0\<rparr>),
     ctxs := (ctxs s0)(0 := c0\<lparr>watchers := Some 1, egb := UEV_EG_BIT_TIMER\<rparr>),
     reads := 1\<rparr>"

definition s_dormant :: st where
  "s_dormant = s0\<lparr>heap := (heap s0)(1 := w_timer\<lparr>t_timeout := 0, t_period := 100\<rparr>),
     ctxs := (ctxs s0)(0 := c0\<lparr>watchers := Some 1, egb := UEV_EG_BIT_TIMER\<rparr>),
     reads := 1\<rparr>"

definition s_dormant_run :: st where
  "s_dormant_run = upd_c 0 (\<lambda>x. x\<lparr>running := 1\<rparr>) s_dormant"

definition s_event :: st where
  "s_event = s0\<lparr>heap := (heap s0)(3 := w0\<lparr>wtype := UEV_EVENT_TYPE, active := 1,
       ctx := Some 0, cb := Some 8, fd := - 1, events := UEV_READ\<rparr>),
     ctxs := (ctxs s0)(0 := c0\<lparr>watchers := Some 3\<rparr>)\<rparr>"

definition s_io :: st where
  "s_io = s0\<lparr>heap := (heap s0)(2 := w0\<lparr>wtype := UEV_IO_TYPE, active := 1,
       ctx := Some 0, cb := Some 9, fd := 5, events := UEV_READ\<rparr>),
     ctxs := (ctxs s0)(0 := c0\<lparr>watchers := Some 2\<rparr>), iolist := [2], sent := 1\<rparr>"

text \<open>
  Two event watchers in the context 0: the watcher 4 (callback 9) is created first and
  the watcher 3 (callback 8) second, so the list is 3, 4 (\<open>s_pair\<close>, lemma
  \<open>s_pair_init\<close>); \<open>s_pair_posted\<close> is the state after one \<open>uev_event_post\<close> to
  the watcher 3. Two callbacks for the function 8: \<open>chain_user\<close> posts to the watcher
  4, and \<open>restart_user\<close> stops the watcher 4, creates it again with
  \<open>uev_event_init\<close> and posts to its own watcher. \<open>wake_stop\<close> is another task: it
  sets the TIMER bit of the context 0 during every wait, and from the wait of the third
  iteration on it also clears the running flag.
\<close>

definition s_pair :: st where
  "s_pair = s0\<lparr>heap := (heap s0)(4 := w0\<lparr>wtype := UEV_EVENT_TYPE, active := 1,
       ctx := Some 0, cb := Some 9, fd := - 1, events := UEV_READ, w_prev := Some 3\<rparr>,
       3 := w0\<lparr>wtype := UEV_EVENT_TYPE, active := 1,
       ctx := Some 0, cb := Some 8, fd := - 1, events := UEV_READ, w_next := Some 4\<rparr>),
     ctxs := (ctxs s0)(0 := c0\<lparr>watchers := Some 3\<rparr>)\<rparr>"




text \<open>
  Three event watchers in the context 0, created in the order 5 (callback 10), 4
  (callback 9), 3 (callback 8), so the list is 3, 4, 5; \<open>s_three\<close> is the state after
  one post to the watcher 5 and one to the watcher 3 (lemma \<open>s_three_init\<close>).
  \<open>stop_next_user\<close> is a callback for the function 8 that stops the watcher 4.
\<close>

definition stop_next_user :: user where
  "stop_next_user f w x ev s =
     (if f = 8
      then (case uev_event_stop (Some 4) s of None \<Rightarrow> s | Some (r1, s1) \<Rightarrow> s1)
      else s)"

definition s_three :: st where
  "s_three = s0\<lparr>heap := (heap s0)(5 := w0\<lparr>wtype := UEV_EVENT_TYPE, active := 1,
       ctx := Some 0, cb := Some 10, fd := - 1, events := UEV_READ, w_prev := Some 4,
       e_posted := 1\<rparr>,
       4 := w0\<lparr>wtype := UEV_EVENT_TYPE, active := 1,
       ctx := Some 0, cb := Some 9, fd := - 1, events := UEV_READ, w_prev := Some 3,
       w_next := Some 5\<rparr>,
       3 := w0\<lparr>wtype := UEV_EVENT_TYPE, active := 1,
       ctx := Some 0, cb := Some 8, fd := - 1, events := UEV_READ, w_next := Some 4,
       e_posted := 1\<rparr>),
     ctxs := (ctxs s0)(0 := c0\<lparr>watchers := Some 3, egb := UEV_EG_BIT_EVENT\<rparr>)\<rparr>"

definition wake_stop :: "nat \<Rightarrow> st \<Rightarrow> st" where
  "wake_stop i s =
     upd_c 0 (\<lambda>x. x\<lparr>egb := egb x OR UEV_EG_BIT_TIMER,
                        running := (if 2 \<le> i then 0 else running x)\<rparr>) s"

section \<open>Lemmas: what the list macros change\<close>

lemma UEV_REMOVE_frame:
  "active (heap (UEV_REMOVE n c s) x) = active (heap s x)"
  "t_timeout (heap (UEV_REMOVE n c s) x) = t_timeout (heap s x)"
  "t_period (heap (UEV_REMOVE n c s) x) = t_period (heap s x)"
  "t_deadline (heap (UEV_REMOVE n c s) x) = t_deadline (heap s x)"
  "ctx (heap (UEV_REMOVE n c s) x) = ctx (heap s x)"
  "wtype (heap (UEV_REMOVE n c s) x) = wtype (heap s x)"
  "fd (heap (UEV_REMOVE n c s) x) = fd (heap s x)"
  "cb (heap (UEV_REMOVE n c s) x) = cb (heap s x)"
  "arg (heap (UEV_REMOVE n c s) x) = arg (heap s x)"
  "events (heap (UEV_REMOVE n c s) x) = events (heap s x)"
  "iot_events (heap (UEV_REMOVE n c s) x) = iot_events (heap s x)"
  "e_posted (heap (UEV_REMOVE n c s) x) = e_posted (heap s x)"
  "t_lock (heap (UEV_REMOVE n c s) x) = t_lock (heap s x)"
  by (simp_all add: UEV_REMOVE_def upd_w_def upd_c_def Let_def split: option.splits)

lemma UEV_REMOVE_ctx_frame:
  "running (ctxs (UEV_REMOVE n c s) d) = running (ctxs s d)"
  "egh (ctxs (UEV_REMOVE n c s) d) = egh (ctxs s d)"
  "egb (ctxs (UEV_REMOVE n c s) d) = egb (ctxs s d)"
  by (simp_all add: UEV_REMOVE_def upd_w_def upd_c_def Let_def split: option.splits)

lemma UEV_INSERT_frame:
  "active (heap (UEV_INSERT n c s) x) = active (heap s x)"
  "t_timeout (heap (UEV_INSERT n c s) x) = t_timeout (heap s x)"
  "t_period (heap (UEV_INSERT n c s) x) = t_period (heap s x)"
  "t_deadline (heap (UEV_INSERT n c s) x) = t_deadline (heap s x)"
  "ctx (heap (UEV_INSERT n c s) x) = ctx (heap s x)"
  "wtype (heap (UEV_INSERT n c s) x) = wtype (heap s x)"
  "fd (heap (UEV_INSERT n c s) x) = fd (heap s x)"
  "cb (heap (UEV_INSERT n c s) x) = cb (heap s x)"
  "arg (heap (UEV_INSERT n c s) x) = arg (heap s x)"
  "events (heap (UEV_INSERT n c s) x) = events (heap s x)"
  "iot_events (heap (UEV_INSERT n c s) x) = iot_events (heap s x)"
  "e_posted (heap (UEV_INSERT n c s) x) = e_posted (heap s x)"
  "t_lock (heap (UEV_INSERT n c s) x) = t_lock (heap s x)"
  by (simp_all add: UEV_INSERT_def upd_w_def upd_c_def Let_def split: option.splits)

lemma UEV_INSERT_ctx_frame:
  "running (ctxs (UEV_INSERT n c s) d) = running (ctxs s d)"
  "egh (ctxs (UEV_INSERT n c s) d) = egh (ctxs s d)"
  "egb (ctxs (UEV_INSERT n c s) d) = egb (ctxs s d)"
  by (simp_all add: UEV_INSERT_def upd_w_def upd_c_def Let_def split: option.splits)

lemma UEV_REMOVE_next:
  "w_next (heap (UEV_REMOVE n c s) x) =
     (if x = n then None
      else if w_prev (heap s n) = Some x then w_next (heap s n)
      else w_next (heap s x))"
  by (simp add: UEV_REMOVE_def upd_w_def upd_c_def Let_def split: option.splits)

lemma UEV_REMOVE_prev:
  "w_prev (heap (UEV_REMOVE n c s) x) =
     (if x = n then None
      else if w_next (heap s n) = Some x then w_prev (heap s n)
      else w_prev (heap s x))"
  by (simp add: UEV_REMOVE_def upd_w_def upd_c_def Let_def split: option.splits)

lemma UEV_REMOVE_head:
  "watchers (ctxs (UEV_REMOVE n c s) d) =
     (if d = c \<and> watchers (ctxs s c) = Some n then w_next (heap s n)
      else watchers (ctxs s d))"
  by (simp add: UEV_REMOVE_def upd_w_def upd_c_def Let_def split: option.splits)

lemma UEV_INSERT_next:
  "w_next (heap (UEV_INSERT n c s) x) =
     (if x = n then watchers (ctxs s c) else w_next (heap s x))"
  by (simp add: UEV_INSERT_def upd_w_def upd_c_def Let_def split: option.splits)

lemma UEV_INSERT_prev:
  "w_prev (heap (UEV_INSERT n c s) x) =
     (if x = n then None
      else if watchers (ctxs s c) = Some x then Some n
      else w_prev (heap s x))"
  by (simp add: UEV_INSERT_def upd_w_def upd_c_def Let_def split: option.splits)

lemma UEV_INSERT_head:
  "watchers (ctxs (UEV_INSERT n c s) d) =
     (if d = c then Some n else watchers (ctxs s d))"
  by (simp add: UEV_INSERT_def upd_w_def upd_c_def Let_def split: option.splits)

lemma dll_cong:
  "\<forall>x \<in> set xs. w_next (h' x) = w_next (h x) \<and> w_prev (h' x) = w_prev (h x) \<Longrightarrow>
   dll h' pr p xs = dll h pr p xs"
  by (induction xs arbitrary: pr p) auto

lemma dll_head_prev:
  assumes "dll h pr p xs" and "distinct xs"
    and "\<forall>x \<in> set xs. w_next (h' x) = w_next (h x)"
    and "\<forall>x \<in> set xs. p \<noteq> Some x \<longrightarrow> w_prev (h' x) = w_prev (h x)"
    and "\<forall>x \<in> set xs. p = Some x \<longrightarrow> w_prev (h' x) = pr'"
  shows "dll h' pr' p xs"
proof (cases xs)
  case Nil
  then show ?thesis using assms by simp
next
  case (Cons y ys)
  have "dll h' (Some y) (w_next (h y)) ys = dll h (Some y) (w_next (h y)) ys"
    using assms Cons by (intro dll_cong) auto
  then show ?thesis using assms Cons by auto
qed

lemma wlist_INSERT:
  assumes "wlist s c xs" and "n \<notin> set xs"
  shows "wlist (UEV_INSERT n c s) c (n # xs)"
proof -
  have d: "dll (heap s) None (watchers (ctxs s c)) xs" and ds: "distinct xs"
    using assms by (simp_all add: wlist_def)
  have "dll (heap (UEV_INSERT n c s)) (Some n) (watchers (ctxs s c)) xs"
    using assms(2)
    by (intro dll_head_prev [OF d ds]) (auto simp: UEV_INSERT_next UEV_INSERT_prev)
  then show ?thesis
    using ds assms(2)
    by (simp add: wlist_def UEV_INSERT_head UEV_INSERT_next UEV_INSERT_prev)
qed

lemma dll_next_in_tl:
  "dll h pr p xs \<Longrightarrow> n \<in> set xs \<Longrightarrow> w_next (h n) = Some z \<Longrightarrow> z \<in> set (tl xs)"
proof (induction xs arbitrary: pr p)
  case Nil
  then show ?case by simp
next
  case (Cons x xs)
  show ?case
  proof (cases "n = x")
    case True
    then show ?thesis using Cons.prems by (cases xs) auto
  next
    case False
    then have "z \<in> set (tl xs)" using Cons by auto
    then show ?thesis by (cases xs) auto
  qed
qed

lemma dll_prev_in:
  "dll h pr p xs \<Longrightarrow> n \<in> set xs \<Longrightarrow> p \<noteq> Some n \<Longrightarrow> \<exists>q \<in> set xs. w_prev (h n) = Some q"
proof (induction xs arbitrary: pr p)
  case Nil
  then show ?case by simp
next
  case (Cons x xs)
  then have nx: "n \<noteq> x" and n: "n \<in> set xs" by auto
  show ?case
  proof (cases "w_next (h x) = Some n")
    case True
    then have "w_prev (h n) = Some x" using Cons.prems n by (cases xs) auto
    then show ?thesis by simp
  next
    case False
    then show ?thesis using Cons.IH [of "Some x" "w_next (h x)"] Cons.prems n by auto
  qed
qed

lemma dll_REMOVE:
  assumes "dll (heap s) pr p xs" and "distinct xs" and "n \<in> set xs"
    and "case pr of None \<Rightarrow> True | Some q \<Rightarrow> q \<notin> set xs"
  shows "dll (heap (UEV_REMOVE n c s)) pr
           (if p = Some n then w_next (heap s n) else p) (remove1 n xs)"
  using assms
proof (induction xs arbitrary: pr p)
  case Nil
  then show ?case by simp
next
  case (Cons y ys)
  have d: "dll (heap s) (Some y) (w_next (heap s y)) ys" and dy: "distinct ys"
    and y: "y \<notin> set ys" and p: "p = Some y" and py: "w_prev (heap s y) = pr"
    using Cons.prems by auto
  show ?case
  proof (cases "y = n")
    case True
    have "dll (heap (UEV_REMOVE n c s)) pr (w_next (heap s n)) ys"
      using Cons.prems(4) True y d py
      by (intro dll_head_prev [OF d [unfolded True [symmetric]] dy, unfolded True])
         (auto simp: UEV_REMOVE_next UEV_REMOVE_prev split: option.splits)
    then show ?thesis using Cons.prems True by simp
  next
    case False
    then have n: "n \<in> set ys" using Cons.prems by simp
    have nn: "w_next (heap s n) \<noteq> Some y"
      using dll_next_in_tl [OF d n] y by (cases ys) auto
    have pn: "(w_prev (heap s n) = Some y) = (w_next (heap s y) = Some n)"
    proof
      assume "w_prev (heap s n) = Some y"
      then show "w_next (heap s y) = Some n"
        using dll_prev_in [OF d n] y by auto
    next
      assume "w_next (heap s y) = Some n"
      then show "w_prev (heap s n) = Some y" using d n by (cases ys) auto
    qed
    have "dll (heap (UEV_REMOVE n c s)) (Some y)
            (if w_next (heap s y) = Some n then w_next (heap s n) else w_next (heap s y))
            (remove1 n ys)"
      using Cons.IH [OF d dy n] y by simp
    then show ?thesis
      using False p py nn pn by (simp add: UEV_REMOVE_next UEV_REMOVE_prev)
  qed
qed

lemma wlist_REMOVE:
  assumes "wlist s c xs" and "n \<in> set xs"
  shows "wlist (UEV_REMOVE n c s) c (remove1 n xs)"
  using dll_REMOVE [of s None "watchers (ctxs s c)" xs n c] assms
  by (simp add: wlist_def UEV_REMOVE_head)

lemma wlist_REMOVE_unlinked:
  assumes "wlist s c xs" and "n \<notin> set xs"
    and "w_next (heap s n) = None" and "w_prev (heap s n) = None"
  shows "UEV_REMOVE n c s = s"
proof -
  have h: "watchers (ctxs s c) \<noteq> Some n" using assms by (cases xs) (auto simp: wlist_def)
  have e: "(heap s n)\<lparr>w_prev := None, w_next := None\<rparr> = heap s n"
    using assms by (intro uev.equality) simp_all
  have "UEV_REMOVE n c s = s\<lparr>heap := (heap s)(n := (heap s n)\<lparr>w_prev := None, w_next := None\<rparr>)\<rparr>"
    using assms h by (simp add: UEV_REMOVE_def upd_w_def upd_c_def Let_def)
  also have "\<dots> = s" unfolding e by simp
  finally show ?thesis .
qed

section \<open>Lemmas: setting a timer\<close>

lemmas prim_defs = i_uev_timer_now_def esp_timer_get_time_def i_uev_lock_def i_uev_unlock_def
  i_uev_lock_init_def i_uev_set_flags_def xEventGroupSetBits_def xEventGroupSetBitsFromISR_def
  i_uev_watcher_active_def i_uev_critical_enter_def i_uev_critical_exit_def
  i_uev_iothread_interrupt_def upd_w_def upd_c_def Let_def

lemma i_uev_watcher_start_timer:
  assumes "ctx (heap s a) = Some c"
    and "wtype (heap s a) = UEV_TIMER_TYPE \<or> wtype (heap s a) = UEV_TIMER_TS_TYPE"
  shows "i_uev_watcher_start (Some a) s =
           (0, if active (heap s a) > 0 then s
               else if wtype (heap s a) = UEV_TIMER_TS_TYPE then upd_w a (\<lambda>x. x\<lparr>active := 1\<rparr>) s
               else UEV_INSERT a c (upd_w a (\<lambda>x. x\<lparr>active := 1\<rparr>) s))"
  using assms
  by (cases "wtype (heap s a) = UEV_TIMER_TS_TYPE")
     (simp_all add: i_uev_watcher_start_def i_uev_watcher_active_def Let_def upd_w_def)


lemma uev_timer_set_timer_eq:
  assumes "ctx (heap s a) = Some c"
    and "wtype (heap s a) = UEV_TIMER_TYPE \<or> wtype (heap s a) = UEV_TIMER_TS_TYPE"
    and "0 \<le> t" and "0 \<le> p"
  shows "uev_timer_set (Some a) t p s =
           i_uev_watcher_start (Some a)
             (s\<lparr>reads := Suc (reads s),
                 heap := (heap s)(a := (heap s a)\<lparr>t_timeout := t, t_period := p,
                    t_deadline := (if running (ctxs s c) \<noteq> 0 \<and> t \<noteq> 0
                                   then fst (i_uev_timer_now s) div 1000 + word_of_int t else 0)\<rparr>),
                 ctxs := (ctxs s)(c := (ctxs s c)\<lparr>egb := egb (ctxs s c) OR UEV_EG_BIT_TIMER\<rparr>)\<rparr>)"
proof -
  obtain now s1 where n: "i_uev_timer_now s = (now, s1)" by (cases "i_uev_timer_now s")
  then have s1: "s1 = s\<lparr>reads := Suc (reads s)\<rparr>"
    by (auto simp: i_uev_timer_now_def esp_timer_get_time_def split: if_splits)
  show ?thesis
    using assms
    unfolding uev_timer_set_def n s1
    by (cases "wtype (heap s a) = UEV_TIMER_TS_TYPE")
       (simp_all add: i_uev_lock_def i_uev_unlock_def i_uev_set_flags_def
          xEventGroupSetBits_def xEventGroupSetBitsFromISR_def upd_w_def upd_c_def Let_def)
qed


lemma uev_timer_set_timer_fields:
  assumes "ctx (heap s a) = Some c"
    and "wtype (heap s a) = UEV_TIMER_TYPE \<or> wtype (heap s a) = UEV_TIMER_TS_TYPE"
    and "0 \<le> t" and "0 \<le> p"
  shows "fst (uev_timer_set (Some a) t p s) = 0"
    and "t_timeout (heap (snd (uev_timer_set (Some a) t p s)) a) = t"
    and "t_period (heap (snd (uev_timer_set (Some a) t p s)) a) = p"
    and "t_deadline (heap (snd (uev_timer_set (Some a) t p s)) a) =
           (if running (ctxs s c) \<noteq> 0 \<and> t \<noteq> 0
            then fst (i_uev_timer_now s) div 1000 + word_of_int t else 0)"
    and "active (heap (snd (uev_timer_set (Some a) t p s)) a) =
           (if active (heap s a) > 0 then active (heap s a) else 1)"
    and "egb (ctxs (snd (uev_timer_set (Some a) t p s)) c) = egb (ctxs s c) OR UEV_EG_BIT_TIMER"
    and "ctx (heap (snd (uev_timer_set (Some a) t p s)) a) = Some c"
    and "wtype (heap (snd (uev_timer_set (Some a) t p s)) a) = wtype (heap s a)"
    and "fd (heap (snd (uev_timer_set (Some a) t p s)) a) = fd (heap s a)"
    and "cb (heap (snd (uev_timer_set (Some a) t p s)) a) = cb (heap s a)"
  unfolding uev_timer_set_timer_eq [OF assms]
  using assms
  by (simp_all add: i_uev_watcher_start_timer upd_w_def UEV_INSERT_frame UEV_INSERT_ctx_frame)

lemma wlist_cong:
  assumes "\<forall>x. w_next (heap s' x) = w_next (heap s x) \<and> w_prev (heap s' x) = w_prev (heap s x)"
    and "watchers (ctxs s' c) = watchers (ctxs s c)"
  shows "wlist s' c xs = wlist s c xs"
  using assms dll_cong [of xs "heap s'" "heap s" None "watchers (ctxs s c)"]
  by (simp add: wlist_def)

lemma uev_timer_set_timer_list:
  assumes "ctx (heap s a) = Some c"
    and "wtype (heap s a) = UEV_TIMER_TYPE \<or> wtype (heap s a) = UEV_TIMER_TS_TYPE"
    and "0 \<le> t" and "0 \<le> p" and "wlist s c xs"
  shows "wlist (snd (uev_timer_set (Some a) t p s)) c
           (if active (heap s a) > 0 \<or> wtype (heap s a) = UEV_TIMER_TS_TYPE \<or> a \<in> set xs
            then xs else a # xs) \<or>
         (a \<in> set xs \<and> \<not> active (heap s a) > 0 \<and> wtype (heap s a) = UEV_TIMER_TYPE)"
proof -
  let ?s7 = "s\<lparr>reads := Suc (reads s),
                 heap := (heap s)(a := (heap s a)\<lparr>t_timeout := t, t_period := p,
                    t_deadline := (if running (ctxs s c) \<noteq> 0 \<and> t \<noteq> 0
                                   then fst (i_uev_timer_now s) div 1000 + word_of_int t else 0)\<rparr>),
                 ctxs := (ctxs s)(c := (ctxs s c)\<lparr>egb := egb (ctxs s c) OR UEV_EG_BIT_TIMER\<rparr>)\<rparr>"
  have w7: "wlist ?s7 c xs"
    using assms(5) by (subst wlist_cong [of _ s]) simp_all
  have w8: "wlist (upd_w a (\<lambda>x. x\<lparr>active := 1\<rparr>) ?s7) c xs"
    using assms(5) by (subst wlist_cong [of _ s]) (simp_all add: upd_w_def)
  show ?thesis
    unfolding uev_timer_set_timer_eq [OF assms(1-4)]
    using assms(1,2) w7 w8 wlist_INSERT [OF w8, of a]
    by (auto simp add: i_uev_watcher_start_timer)
qed

section \<open>Lemmas: creating, starting and stopping a timer\<close>

lemma i_uev_watcher_init_fields:
  shows "fst (i_uev_watcher_init (Some c) (Some a) ty f x d ev s) = 0"
    and "ctx (heap (snd (i_uev_watcher_init (Some c) (Some a) ty f x d ev s)) a) = Some c"
    and "wtype (heap (snd (i_uev_watcher_init (Some c) (Some a) ty f x d ev s)) a) = ty"
    and "active (heap (snd (i_uev_watcher_init (Some c) (Some a) ty f x d ev s)) a) = 0"
    and "fd (heap (snd (i_uev_watcher_init (Some c) (Some a) ty f x d ev s)) a) = d"
  by (simp_all add: i_uev_watcher_init_def Let_def upd_w_def UEV_INSERT_frame)

lemma uev_timer_init2_success:
  assumes "uev_timer_init2 c w f x t0 p0 ts s = Some (0, s1)"
  shows "\<exists>wa ca. w = Some wa \<and> c = Some ca \<and> ctx (heap s1 wa) = Some ca \<and>
           (wtype (heap s1 wa) = UEV_TIMER_TYPE \<or> wtype (heap s1 wa) = UEV_TIMER_TS_TYPE) \<and>
           fd (heap s1 wa) = - 1 \<and> active (heap s1 wa) = 1"
proof -
  have tp: "0 \<le> t0" "0 \<le> p0"
    using assms by (auto simp: uev_timer_init2_def split: if_splits)
  obtain wa where w: "w = Some wa"
    using assms tp by (cases w) (auto simp: uev_timer_init2_def)
  obtain ca where c: "c = Some ca"
    using assms tp w
    by (cases c) (auto simp: uev_timer_init2_def i_uev_watcher_init_def Let_def)
  let ?ty = "if ts \<noteq> 0 then UEV_TIMER_TS_TYPE else UEV_TIMER_TYPE"
  let ?sb = "snd (i_uev_watcher_init (Some ca) (Some wa) ?ty f x (- 1) UEV_READ (i_uev_lock_init wa s))"
  have ty: "wtype (heap ?sb wa) = UEV_TIMER_TYPE \<or> wtype (heap ?sb wa) = UEV_TIMER_TS_TYPE"
    by (simp add: i_uev_watcher_init_fields)
  have cx: "ctx (heap ?sb wa) = Some ca" by (simp add: i_uev_watcher_init_fields)
  note F = uev_timer_set_timer_fields [OF cx ty tp]
  have "uev_timer_init2 c w f x t0 p0 ts s = Some (0, snd (uev_timer_set (Some wa) t0 p0 ?sb))"
    using tp F(1)
    by (simp add: uev_timer_init2_def w c Let_def case_prod_beta i_uev_watcher_init_fields)
  then have s1: "s1 = snd (uev_timer_set (Some wa) t0 p0 ?sb)" using assms by simp
  show ?thesis
    using F ty unfolding s1 w c
    by (simp add: i_uev_watcher_init_fields)
qed

lemma uev_timer_start_fd:
  assumes "fd (heap s a) = - 1"
  shows "uev_timer_start (Some a) s =
           Some (uev_timer_set (Some a) (t_timeout (heap s a)) (t_period (heap s a)) s)"
  using assms by (simp add: uev_timer_start_def)

lemma uev_timer_stop_active:
  assumes "ctx (heap s a) = Some c" and "active (heap s a) > 0"
    and "wtype (heap s a) = UEV_TIMER_TYPE \<or> wtype (heap s a) = UEV_TIMER_TS_TYPE"
  shows "uev_timer_stop (Some a) s =
           Some (0, if wtype (heap s a) = UEV_TIMER_TS_TYPE
                    then UEV_REMOVE a c (upd_w a (\<lambda>x. x\<lparr>active := 0\<rparr>) s)
                    else UEV_REMOVE a c (UEV_REMOVE a c (upd_w a (\<lambda>x. x\<lparr>active := 0\<rparr>) s)))"
  using assms
  by (cases "wtype (heap s a) = UEV_TIMER_TS_TYPE")
     (simp_all add: uev_timer_stop_def i_uev_timer_stop_def i_uev_watcher_stop_def
        i_uev_watcher_active_def Let_def upd_w_def UEV_REMOVE_frame)

lemma i_uev_timer_stop_active:
  assumes "ctx (heap s a) = Some c" and "active (heap s a) > 0"
    and "wtype (heap s a) = UEV_TIMER_TYPE \<or> wtype (heap s a) = UEV_TIMER_TS_TYPE"
  shows "i_uev_timer_stop (Some a) s =
           Some (0, if wtype (heap s a) = UEV_TIMER_TS_TYPE
                    then upd_w a (\<lambda>x. x\<lparr>active := 0\<rparr>) s
                    else UEV_REMOVE a c (upd_w a (\<lambda>x. x\<lparr>active := 0\<rparr>) s))"
  using assms
  by (cases "wtype (heap s a) = UEV_TIMER_TS_TYPE")
     (simp_all add: i_uev_timer_stop_def i_uev_watcher_stop_def
        i_uev_watcher_active_def Let_def upd_w_def)

lemma uev_timer_stop_inactive:
  assumes "ctx (heap s a) = Some c" and "\<not> active (heap s a) > 0"
  shows "uev_timer_stop (Some a) s = Some (0, UEV_REMOVE a c s)"
  using assms
  by (simp add: uev_timer_stop_def i_uev_timer_stop_def i_uev_watcher_active_def)

lemma uev_timer_init2_eq:
  assumes "0 \<le> t0" and "0 \<le> p0"
  shows "uev_timer_init2 (Some ca) (Some wa) f x t0 p0 ts s =
           Some (0, snd (uev_timer_set (Some wa) t0 p0
             (snd (i_uev_watcher_init (Some ca) (Some wa)
                (if ts \<noteq> 0 then UEV_TIMER_TS_TYPE else UEV_TIMER_TYPE) f x (- 1) UEV_READ
                (i_uev_lock_init wa s)))))"
proof -
  let ?ty = "if ts \<noteq> 0 then UEV_TIMER_TS_TYPE else UEV_TIMER_TYPE"
  let ?sb = "snd (i_uev_watcher_init (Some ca) (Some wa) ?ty f x (- 1) UEV_READ (i_uev_lock_init wa s))"
  have ty: "wtype (heap ?sb wa) = UEV_TIMER_TYPE \<or> wtype (heap ?sb wa) = UEV_TIMER_TS_TYPE"
    by (simp add: i_uev_watcher_init_fields)
  have cx: "ctx (heap ?sb wa) = Some ca" by (simp add: i_uev_watcher_init_fields)
  note F = uev_timer_set_timer_fields [OF cx ty assms]
  show ?thesis
    using assms F(1)
    by (simp add: uev_timer_init2_def Let_def case_prod_beta i_uev_watcher_init_fields)
qed

lemma wlist_distinct_remove1: "wlist s c xs \<Longrightarrow> a \<notin> set (remove1 a xs)"
  by (simp add: wlist_def)

section \<open>Lemmas: the example states\<close>

lemmas example_defs = s_timer_def s_stopped_def s_armed_def s_ts_def s_dormant_def
  s_dormant_run_def s_event_def s_io_def w_timer_def s0_def w0_def c0_def

lemmas timer_defs = uev_timer_init_def uev_timer_init2_def i_uev_watcher_init_def
  uev_timer_set_def i_uev_watcher_start_def i_uev_watcher_stop_def i_uev_timer_stop_def
  uev_timer_stop_def UEV_INSERT_def UEV_REMOVE_def prim_defs

lemma s_timer_init:
  "uev_timer_init (Some 0) (Some 1) (Some 7) 0 10 20 s0 = Some (0, s_timer)"
  by (simp add: timer_defs example_defs)

lemma s_stopped_stop: "uev_timer_stop (Some 1) s_timer = Some (0, s_stopped)"
  by (simp add: timer_defs example_defs)

lemma s_ts_init:
  "uev_timer_init2 (Some 0) (Some 1) (Some 7) 0 50 0 1 s0 = Some (0, s_ts)"
  by (simp add: timer_defs example_defs)

lemma s_dormant_init:
  "uev_timer_init (Some 0) (Some 1) (Some 7) 0 0 100 s0 = Some (0, s_dormant)"
  by (simp add: timer_defs example_defs)

lemma s_armed_rearm:
  "uev_run_rearm 1 (watchers (ctxs s_timer 0)) FOREVER (upd_c 0 (\<lambda>x. x\<lparr>running := 1\<rparr>) s_timer)
     = Some (2010, s_armed)"
  by (simp add: uev_run_rearm1_def FOREVER_def timer_defs example_defs)

lemma s_event_init: "uev_event_init (Some 0) (Some 3) (Some 8) 0 s0 = (0, s_event)"
  by (simp add: uev_event_init_def timer_defs example_defs)

lemma s_io_start:
  "i_uev_watcher_start (Some 2)
     (snd (i_uev_watcher_init (Some 0) (Some 2) UEV_IO_TYPE (Some 9) 0 5 UEV_READ s0))
   = (0, s_io)"
  by (simp add: i_uev_iothread_watcher_add_def list_add_tail_def timer_defs example_defs)

lemma s_ts_eval:
  "wtype (heap s_ts 1) = UEV_TIMER_TS_TYPE \<and> active (heap s_ts 1) = 1 \<and>
   ctx (heap s_ts 1) = Some 0 \<and> watchers (ctxs s_ts 0) = Some 1 \<and>
   w_next (heap s_ts 1) = None \<and> w_prev (heap s_ts 1) = None"
  by (simp add: example_defs)

lemma s_stopped_eval:
  "ctx (heap s_stopped 1) = Some 0 \<and> wtype (heap s_stopped 1) = UEV_TIMER_TYPE \<and>
   active (heap s_stopped 1) = 0 \<and> watchers (ctxs s_stopped 0) = None"
  by (simp add: example_defs)

section \<open>Lemmas: the dispatch of one watcher\<close>


lemma i_uev_timer_now_snd: "snd (i_uev_timer_now s) = s\<lparr>reads := Suc (reads s)\<rparr>"
  by (simp add: i_uev_timer_now_def esp_timer_get_time_def)

lemma dispatch_timer_nofire:
  assumes "\<not> (0 < fst (i_uev_timer_now s) div 1000 \<and> t_deadline (heap s a) \<noteq> 0 \<and>
              t_deadline (heap s a) < fst (i_uev_timer_now s) div 1000)"
  shows "dispatch_timer a nd s =
           Some (False, 0,
                 if t_deadline (heap s a) \<noteq> 0 \<and> t_deadline (heap s a) < nd
                 then t_deadline (heap s a) else nd,
                 s\<lparr>reads := Suc (reads s)\<rparr>)"
proof -
  obtain now s1 where n: "i_uev_timer_now s = (now, s1)" by (cases "i_uev_timer_now s")
  have s1: "s1 = s\<lparr>reads := Suc (reads s)\<rparr>" using i_uev_timer_now_snd [of s] n by simp
  have "now div 1000 = 0 \<or> t_deadline (heap s a) = 0 \<or> \<not> t_deadline (heap s a) < now div 1000"
    using assms n by (auto simp: word_greater_zero_iff)
  then show ?thesis
    unfolding dispatch_timer_def n s1
    by (cases "wtype (heap s a) = UEV_TIMER_TS_TYPE")
       (auto simp add: i_uev_critical_enter_def i_uev_critical_exit_def Let_def)
qed

lemma dispatch_timer_fire:
  assumes "0 < fst (i_uev_timer_now s) div 1000" and "t_deadline (heap s a) \<noteq> 0"
    and "t_deadline (heap s a) < fst (i_uev_timer_now s) div 1000"
    and "wtype (heap s a) = UEV_TIMER_TYPE \<or> wtype (heap s a) = UEV_TIMER_TS_TYPE"
    and "ctx (heap s a) = Some c" and "active (heap s a) > 0"
  shows "\<exists>s1. dispatch_timer a nd s =
           Some (True, UEV_READ,
                 if t_deadline (heap s1 a) \<noteq> 0 \<and> t_deadline (heap s1 a) < nd
                 then t_deadline (heap s1 a) else nd, s1) \<and>
           t_period (heap s1 a) = t_period (heap s a) \<and>
           t_timeout (heap s1 a) = (if t_period (heap s a) = 0 then 0 else t_timeout (heap s a)) \<and>
           active (heap s1 a) = (if t_timeout (heap s1 a) = 0 then 0 else active (heap s a)) \<and>
           t_deadline (heap s1 a) =
             (if t_timeout (heap s1 a) = 0 then t_deadline (heap s a)
              else fst (i_uev_timer_now s) div 1000 + word_of_int (t_period (heap s a))) \<and>
           cb (heap s1 a) = cb (heap s a) \<and> arg (heap s1 a) = arg (heap s a) \<and>
           wtype (heap s1 a) = wtype (heap s a) \<and> ctx (heap s1 a) = ctx (heap s a)"
proof -
  obtain now s1 where n: "i_uev_timer_now s = (now, s1)" by (cases "i_uev_timer_now s")
  have s1: "s1 = s\<lparr>reads := Suc (reads s)\<rparr>" using i_uev_timer_now_snd [of s] n by simp
  have fire: "0 < now div 1000" "t_deadline (heap s a) < now div 1000"
    using assms n by simp_all
  consider (a) "t_period (heap s a) = 0"
    | (b) "t_period (heap s a) \<noteq> 0" "t_timeout (heap s a) = 0"
    | (c) "t_period (heap s a) \<noteq> 0" "t_timeout (heap s a) \<noteq> 0"
    by blast
  then show ?thesis
  proof cases
    case a
    show ?thesis
      using assms(2,4,5,6) fire a
      unfolding dispatch_timer_def n s1
      by (cases "wtype (heap s a) = UEV_TIMER_TS_TYPE")
         (simp_all add: i_uev_critical_enter_def i_uev_critical_exit_def Let_def upd_w_def
            i_uev_timer_stop_def i_uev_watcher_stop_def i_uev_watcher_active_def
            UEV_REMOVE_frame)
  next
    case b
    show ?thesis
      using assms(2,4,5,6) fire b
      unfolding dispatch_timer_def n s1
      by (cases "wtype (heap s a) = UEV_TIMER_TS_TYPE")
         (simp_all add: i_uev_critical_enter_def i_uev_critical_exit_def Let_def upd_w_def
            i_uev_timer_stop_def i_uev_watcher_stop_def i_uev_watcher_active_def
            UEV_REMOVE_frame)
  next
    case c
    show ?thesis
      using assms(2,4,5,6) fire c
      unfolding dispatch_timer_def n s1
      by (cases "wtype (heap s a) = UEV_TIMER_TS_TYPE")
         (simp_all add: i_uev_critical_enter_def i_uev_critical_exit_def Let_def upd_w_def)
  qed
qed


lemma dispatch_switch_timer:
  "wtype (heap s a) = UEV_TIMER_TYPE \<or> wtype (heap s a) = UEV_TIMER_TS_TYPE \<Longrightarrow>
   dispatch_switch bits a nd s = dispatch_timer a nd s"
  by (auto simp: dispatch_switch_def)

lemma dispatch_watcher_after:
  assumes "active (heap s a) \<noteq> 0"
    and "dispatch_switch bits a nd s = Some (runcb, evs, nd1, s1)"
  shows "dispatch_watcher user bits a nd s tr =
           Some (nd1,
                 (case cb (heap s1 a) of None \<Rightarrow> s1
                  | Some f \<Rightarrow>
                      if runcb
                      then (let s2 = user f a (arg (heap s1 a)) (evs AND UEV_EVENT_MASK) s1
                            in if wtype (heap s2 a) = UEV_IO_TYPE
                               then i_uev_iothread_interrupt
                                      (upd_w a (\<lambda>x. x\<lparr>iot_events := iot_events x AND NOT evs\<rparr>) s2)
                               else s2)
                      else s1),
                 if runcb \<and> cb (heap s1 a) \<noteq> None
                 then tr @ [(a, arg (heap s1 a), evs AND UEV_EVENT_MASK)] else tr)"
  using assms by (simp add: dispatch_watcher_def Let_def split: option.splits)

lemma READ_masked: "UEV_READ AND UEV_EVENT_MASK = UEV_READ"
  by (simp add: UEV_READ_def UEV_EVENT_MASK_def UEV_ERROR_def UEV_WRITE_def)




lemma i_uev_set_flags_fields:
  "heap (i_uev_set_flags c b s) = heap s"
  "egb (ctxs (i_uev_set_flags c b s) c) = egb (ctxs s c) OR b"
  "watchers (ctxs (i_uev_set_flags c b s) d) = watchers (ctxs s d)"
  by (simp_all add: i_uev_set_flags_def xEventGroupSetBits_def xEventGroupSetBitsFromISR_def
      upd_c_def)



section \<open>Lemmas: the selector and the pending events\<close>


lemma task_fn_events_bits:
  "(task_fn_events fds a s AND UEV_READ \<noteq> 0) =
     (fd (heap s a) \<in> readfds fds \<and> events (heap s a) AND UEV_READ \<noteq> 0)"
  "(task_fn_events fds a s AND UEV_WRITE \<noteq> 0) =
     (fd (heap s a) \<in> writefds fds \<and> events (heap s a) AND UEV_WRITE \<noteq> 0)"
  "(task_fn_events fds a s AND UEV_ERROR \<noteq> 0) =
     (fd (heap s a) \<in> exceptfds fds \<and> events (heap s a) AND UEV_ERROR \<noteq> 0)"
  "task_fn_events fds a s AND NOT UEV_EVENT_MASK = 0"
  by (simp_all add: task_fn_events_def Let_def UEV_READ_def UEV_WRITE_def UEV_ERROR_def
      UEV_EVENT_MASK_def)

lemma task_fn_events_cong:
  "fd (heap s' a) = fd (heap s a) \<Longrightarrow> events (heap s' a) = events (heap s a) \<Longrightarrow>
   task_fn_events fds a s' = task_fn_events fds a s"
  by (simp add: task_fn_events_def)

lemma task_fn_collect1_fields:
  assumes "task_fn_collect1 fds b s = Some s'"
  shows "iot_events (heap s' a) =
           (if a = b \<and> active (heap s a) > 0 \<and> 0 \<le> fd (heap s a)
            then iot_events (heap s a) OR task_fn_events fds a s else iot_events (heap s a))"
    and "events (heap s' a) = events (heap s a)"
    and "fd (heap s' a) = fd (heap s a)"
    and "active (heap s' a) = active (heap s a)"
  using assms
  by (auto simp: task_fn_collect1_def i_uev_watcher_active_def Let_def upd_w_def
      i_uev_set_flags_fields split: if_splits option.splits)

lemma list_for_every_entry_collect:
  assumes "list_for_every_entry (task_fn_collect1 fds) xs s = Some s'"
  shows "iot_events (heap s' a) =
           (if a \<in> set xs \<and> active (heap s a) > 0 \<and> 0 \<le> fd (heap s a)
            then iot_events (heap s a) OR task_fn_events fds a s else iot_events (heap s a)) \<and>
         events (heap s' a) = events (heap s a) \<and> fd (heap s' a) = fd (heap s a) \<and>
         active (heap s' a) = active (heap s a)"
  using assms
proof (induction xs arbitrary: s)
  case Nil
  then show ?case by simp
next
  case (Cons b xs)
  then obtain s1 where b: "task_fn_collect1 fds b s = Some s1"
    and r: "list_for_every_entry (task_fn_collect1 fds) xs s1 = Some s'"
    by (auto split: option.splits)
  note F = task_fn_collect1_fields [OF b, of a]
  have e: "task_fn_events fds a s1 = task_fn_events fds a s"
    using F by (intro task_fn_events_cong) simp_all
  show ?case
    using Cons.IH [OF r] F e by (auto simp: or.assoc)
qed

lemma task_fn_collect_fields:
  assumes "task_fn_collect fds s = Some s'"
  shows "iot_events (heap s' a) =
           (if a \<in> set (iolist s) \<and> active (heap s a) > 0 \<and> 0 \<le> fd (heap s a)
            then iot_events (heap s a) OR task_fn_events fds a s else iot_events (heap s a)) \<and>
         events (heap s' a) = events (heap s a)"
proof -
  obtain s1 where r: "list_for_every_entry (task_fn_collect1 fds) (iolist s) (i_uev_critical_enter s) = Some s1"
    and s': "s' = i_uev_critical_exit s1"
    using assms by (auto simp: task_fn_collect_def split: option.splits)
  have e: "task_fn_events fds a (i_uev_critical_enter s) = task_fn_events fds a s"
    by (intro task_fn_events_cong) (simp_all add: i_uev_critical_enter_def)
  show ?thesis
    using list_for_every_entry_collect [OF r, of a] e
    by (simp add: s' i_uev_critical_enter_def i_uev_critical_exit_def)
qed

lemma dispatch_switch_io:
  assumes "wtype (heap s a) = UEV_IO_TYPE"
  shows "dispatch_switch bits a nd s =
           Some (bits AND UEV_EG_BIT_IO \<noteq> 0 \<and> iot_events (heap s a) \<noteq> 0,
                 if bits AND UEV_EG_BIT_IO \<noteq> 0 \<and> iot_events (heap s a) \<noteq> 0
                 then iot_events (heap s a) else 0, nd, s)"
  using assms by (simp add: dispatch_switch_def Let_def)

lemma WRITE_of_masked: "(x AND UEV_EVENT_MASK) AND UEV_WRITE = x AND UEV_WRITE"
  by (simp add: and.assoc UEV_EVENT_MASK_def UEV_WRITE_def UEV_READ_def UEV_ERROR_def)



lemma task_fn_collect1_wtype:
  "task_fn_collect1 fds b s = Some s' \<Longrightarrow> wtype (heap s' a) = wtype (heap s a)"
  by (auto simp: task_fn_collect1_def i_uev_watcher_active_def Let_def upd_w_def
      i_uev_set_flags_fields split: if_splits option.splits)

lemma list_for_every_entry_wtype:
  "list_for_every_entry (task_fn_collect1 fds) xs s = Some s' \<Longrightarrow>
   wtype (heap s' a) = wtype (heap s a)"
proof (induction xs arbitrary: s)
  case Nil
  then show ?case by simp
next
  case (Cons b xs)
  then show ?case
    by (auto split: option.splits dest: task_fn_collect1_wtype [where a = a])
qed

lemma task_fn_collect_wtype:
  "task_fn_collect fds s = Some s' \<Longrightarrow> wtype (heap s' a) = wtype (heap s a)"
  by (auto simp: task_fn_collect_def i_uev_critical_enter_def i_uev_critical_exit_def
      split: option.splits dest: list_for_every_entry_wtype [where a = a])

lemma task_fn_collect_no_write:
  assumes "task_fn_collect fds s = Some s'"
    and "events (heap s a) AND UEV_WRITE = 0" and "iot_events (heap s a) AND UEV_WRITE = 0"
  shows "events (heap s' a) AND UEV_WRITE = 0 \<and> iot_events (heap s' a) AND UEV_WRITE = 0"
  using task_fn_collect_fields [OF assms(1), of a] assms(2,3) task_fn_events_bits(2) [of fds a s]
  by (auto simp: bit.conj_disj_distrib2)

lemma dispatch_io_no_write:
  assumes "dispatch_watcher user bits a nd s tr = Some (nd1, s1, tr1)"
    and "wtype (heap s a) = UEV_IO_TYPE"
    and "events (heap s a) AND UEV_WRITE = 0" and "iot_events (heap s a) AND UEV_WRITE = 0"
    and "\<forall>f w x ev t. events (heap (user f w x ev t) a) = events (heap t a) \<and>
           iot_events (heap (user f w x ev t) a) = iot_events (heap t a) \<and>
           wtype (heap (user f w x ev t) a) = wtype (heap t a)"
  shows "wtype (heap s1 a) = UEV_IO_TYPE \<and>
         events (heap s1 a) AND UEV_WRITE = 0 \<and> iot_events (heap s1 a) AND UEV_WRITE = 0 \<and>
         (tr1 = tr \<or> (\<exists>x ev. tr1 = tr @ [(a, x, ev)] \<and> ev AND UEV_WRITE = 0))"
proof (cases "active (heap s a) = 0")
  case True
  then show ?thesis using assms by (simp add: dispatch_watcher_def)
next
  case False
  note w = dispatch_watcher_after [OF False dispatch_switch_io [OF assms(2)], of user bits nd tr]
  have m: "(iot_events (heap s a) AND UEV_EVENT_MASK) AND UEV_WRITE = 0"
    using assms(4) by (simp add: WRITE_of_masked)
  have n: "(iot_events (heap s a) AND NOT y) AND UEV_WRITE = 0" for y
  proof -
    have "(iot_events (heap s a) AND NOT y) AND UEV_WRITE =
          (iot_events (heap s a) AND UEV_WRITE) AND NOT y"
      by (simp add: ac_simps)
    then show ?thesis by (simp only: assms(4)) simp
  qed
  show ?thesis
    using assms(1) unfolding w
    using assms(2,3,4) assms(5) m n
    by (auto simp: Let_def upd_w_def i_uev_iothread_interrupt_def split: option.splits if_splits)
qed

lemma io_run_no_write:
  assumes "io_run user a steps s tr = Some (s', tr')"
    and "wtype (heap s a) = UEV_IO_TYPE"
    and "events (heap s a) AND UEV_WRITE = 0" and "iot_events (heap s a) AND UEV_WRITE = 0"
    and "\<forall>f w x ev t. events (heap (user f w x ev t) a) = events (heap t a) \<and>
           iot_events (heap (user f w x ev t) a) = iot_events (heap t a) \<and>
           wtype (heap (user f w x ev t) a) = wtype (heap t a)"
    and "\<forall>e \<in> set tr. snd (snd e) AND UEV_WRITE = 0"
  shows "\<forall>e \<in> set tr'. snd (snd e) AND UEV_WRITE = 0"
  using assms
proof (induction steps arbitrary: s tr)
  case Nil
  then show ?case by simp
next
  case (Cons st steps)
  show ?case
  proof (cases st)
    case (Select fds)
    then obtain s1 where c: "task_fn_collect fds s = Some s1"
      and r: "io_run user a steps s1 tr = Some (s', tr')"
      using Cons.prems(1) by (auto split: option.splits)
    show ?thesis
      using Cons.IH [OF r _ _ _ Cons.prems(5,6)]
        task_fn_collect_no_write [OF c Cons.prems(3,4)] task_fn_collect_wtype [OF c, of a]
        Cons.prems(2)
      by simp
  next
    case (Dispatch bits nd)
    then obtain nd1 s1 tr1 where d: "dispatch_watcher user bits a nd s tr = Some (nd1, s1, tr1)"
      and r: "io_run user a steps s1 tr1 = Some (s', tr')"
      using Cons.prems(1) by (auto split: option.splits)
    note F = dispatch_io_no_write [OF d Cons.prems(2,3,4,5)]
    have t1: "\<forall>e \<in> set tr1. snd (snd e) AND UEV_WRITE = 0"
      using F Cons.prems(6) by auto
    show ?thesis
      using Cons.IH [OF r _ _ _ Cons.prems(5) t1] F by simp
  qed
qed

section \<open>Lemmas: the deadline of the wait, and concrete runs\<close>

lemma dispatch_timer_deadline_nonzero:
  "dispatch_timer a nd s = Some (r, e, nd1, s1) \<Longrightarrow> nd \<noteq> 0 \<Longrightarrow> nd1 \<noteq> 0"
  by (auto simp: dispatch_timer_def Let_def case_prod_beta split: option.splits if_splits)

lemma dispatch_watcher_deadline_nonzero:
  "dispatch_watcher user bits a nd s tr = Some (nd1, s1, tr1) \<Longrightarrow> nd \<noteq> 0 \<Longrightarrow> nd1 \<noteq> 0"
  by (auto simp: dispatch_watcher_def dispatch_switch_def Let_def
      split: option.splits if_splits uev_type_t.splits
      dest: dispatch_timer_deadline_nonzero)

lemma sweep_deadline_nonzero:
  "sweep user bits n p nd s tr = Some (nd1, s1, tr1) \<Longrightarrow> nd \<noteq> 0 \<Longrightarrow> nd1 \<noteq> 0"
proof (induction n arbitrary: p nd s tr)
  case 0
  then show ?case by (cases p) auto
next
  case (Suc n)
  show ?case
  proof (cases p)
    case None
    then show ?thesis using Suc.prems by simp
  next
    case (Some a)
    then obtain nd2 s2 tr2 where d: "dispatch_watcher user bits a nd s tr = Some (nd2, s2, tr2)"
      and r: "sweep user bits n (w_next (heap s a)) nd2 s2 tr2 = Some (nd1, s1, tr1)"
      using Suc.prems(1) by (auto simp: Let_def split: option.splits)
    have "nd2 \<noteq> 0" using d Suc.prems(2) by (rule dispatch_watcher_deadline_nonzero)
    then show ?thesis using Suc.IH [OF r] by simp
  qed
qed

text \<open>A run of \<open>uev_run\<close> with \<open>UEV_ONCE\<close> on the timer of \<open>s_timer\<close>
  (timeout 10, period 20): it returns after one callback, and the deadline is the
  time of the dispatch plus the period.\<close>

lemma uev_run_armed_eval:
  "uev_run no_user no_tasks 1 1 (Some 0) UEV_ONCE s_timer \<noteq> None \<and>
   snd (snd (the (uev_run no_user no_tasks 1 1 (Some 0) UEV_ONCE s_timer))) = [(1, 0, UEV_READ)] \<and>
   t_deadline (heap (fst (snd (the (uev_run no_user no_tasks 1 1 (Some 0) UEV_ONCE s_timer)))) 1)
     = 4020"
  by code_simp


text \<open>Three posts to the event watcher of \<open>s_event\<close>, then \<open>uev_run\<close> with
  \<open>UEV_ONCE\<close>: one callback with READ, and the posted flag is 0 afterwards.\<close>

lemma event_post_run_eval:
  "uev_event_post_times 3 (Some 3) s_event \<noteq> None \<and>
   e_posted (heap (the (uev_event_post_times 3 (Some 3) s_event)) 3) = 1 \<and>
   uev_run no_user no_tasks 1 1 (Some 0) UEV_ONCE
     (the (uev_event_post_times 3 (Some 3) s_event)) \<noteq> None \<and>
   snd (snd (the (uev_run no_user no_tasks 1 1 (Some 0) UEV_ONCE
     (the (uev_event_post_times 3 (Some 3) s_event))))) = [(3, 0, UEV_READ)] \<and>
   e_posted (heap (fst (snd (the (uev_run no_user no_tasks 1 1 (Some 0) UEV_ONCE
     (the (uev_event_post_times 3 (Some 3) s_event)))))) 3) = 0"
  by code_simp

text \<open>The I/O watcher of \<open>s_io\<close> asks for READ only. A selector round that finds its
  descriptor readable and writable, then a dispatch: the callback gets READ.\<close>

lemma io_run_eval:
  "io_run no_user 2
     [Select \<lparr>readfds = {5}, writefds = {5}, exceptfds = {}\<rparr>, Dispatch UEV_EG_BIT_IO FOREVER]
     s_io [] \<noteq> None \<and>
   snd (the (io_run no_user 2
     [Select \<lparr>readfds = {5}, writefds = {5}, exceptfds = {}\<rparr>, Dispatch UEV_EG_BIT_IO FOREVER]
     s_io [])) = [(2, 0, UEV_READ)]"
  by code_simp

section \<open>Lemmas: a sweep with callbacks that leave the list alone\<close>






lemma upd_w_sel:
  "heap (upd_w a f s) y = (if y = a then f (heap s a) else heap s y)"
  "ctxs (upd_w a f s) = ctxs s"
  "reads (upd_w a f s) = reads s"
  "mux (upd_w a f s) = mux s"
  "sent (upd_w a f s) = sent s"
  by (simp_all add: upd_w_def)











lemma s_pair_init:
  "uev_event_init (Some 0) (Some 3) (Some 8) 0
     (snd (uev_event_init (Some 0) (Some 4) (Some 9) 0 s0)) = (0, s_pair)"
  by (simp add: uev_event_init_def i_uev_watcher_init_def i_uev_watcher_start_def
       i_uev_watcher_active_def UEV_INSERT_def upd_w_def upd_c_def Let_def s_pair_def s0_def
       w0_def c0_def fun_upd_twist)


text \<open>\<open>uev_event_init\<close> on a watcher that is not in the list leaves it armed: linked
  at the head, active, of the event type, with no pending post.\<close>

lemma uev_event_init_armed:
  assumes wl: "wlist s c xs" and n: "a \<notin> set xs"
  shows "\<exists>s1. uev_event_init (Some c) (Some a) f x s = (0, s1) \<and> wlist s1 c (a # xs) \<and>
           ctx (heap s1 a) = Some c \<and> (\<forall>y. y \<noteq> a \<longrightarrow> ctx (heap s1 y) = ctx (heap s y)) \<and>
           wtype (heap s1 a) = UEV_EVENT_TYPE \<and> active (heap s1 a) = 1 \<and>
           e_posted (heap s1 a) = 0 \<and> cb (heap s1 a) = f \<and> arg (heap s1 a) = x"
proof -
  let ?t = "upd_w a (\<lambda>w. w\<lparr>active := 1\<rparr>)
             (upd_w a (\<lambda>w. w\<lparr>iot_events := 0\<rparr>)
               (upd_w a (\<lambda>w. w\<lparr>ctx := Some c, wtype := UEV_EVENT_TYPE, active := 0, fd := - 1,
                                  cb := f, arg := x, events := UEV_READ\<rparr>)
                 (upd_w a (\<lambda>w. w\<lparr>e_posted := 0\<rparr>) s)))"
  have e: "uev_event_init (Some c) (Some a) f x s = (0, UEV_INSERT a c ?t)"
    by (simp add: uev_event_init_def i_uev_watcher_init_def i_uev_watcher_start_def
          i_uev_watcher_active_def Let_def upd_w_sel)
  have "wlist ?t c xs"
    using wl n unfolding wlist_def
    by (subst dll_cong [of _ _ "heap s"]) (auto simp: upd_w_sel)
  from wlist_INSERT [OF this n]
  show ?thesis
    unfolding e
    by (simp add: UEV_INSERT_frame upd_w_sel)
qed

text \<open>A callback that stops the next watcher of the list: the pointer that the sweep
  saved before the callback leads to the stopped watcher, whose \<open>next\<close> pointer is
  NULL by then, and the sweep ends there. In \<open>s_three\<close> the watcher 5 has a pending
  post and is neither visited nor called in the iteration, and its posted flag is
  still 1; with a callback that does nothing it is called.\<close>

lemma s_three_init:
  "uev_event_post (Some 3) (snd (the (uev_event_post (Some 5)
     (snd (uev_event_init (Some 0) (Some 3) (Some 8) 0
       (snd (uev_event_init (Some 0) (Some 4) (Some 9) 0
         (snd (uev_event_init (Some 0) (Some 5) (Some 10) 0 s0))))))))) = Some (0, s_three)"
  by (simp add: uev_event_init_def uev_event_post_def i_uev_set_flags_def
       xEventGroupSetBits_def i_uev_watcher_init_def i_uev_watcher_start_def
       i_uev_watcher_active_def UEV_INSERT_def upd_w_def upd_c_def Let_def s_three_def s0_def
       w0_def c0_def fun_upd_twist)

lemma event_skipped_eval:
  "e_posted (heap s_three 5) = 1 \<and> active (heap s_three 5) = 1 \<and>
   uev_run_iteration stop_next_user (no_tasks 0) 3 0 FOREVER s_three [] \<noteq> None \<and>
   snd (snd (the (uev_run_iteration stop_next_user (no_tasks 0) 3 0 FOREVER s_three []))) =
     [(3, 0, UEV_READ)] \<and>
   e_posted (heap (fst (snd (the
     (uev_run_iteration stop_next_user (no_tasks 0) 3 0 FOREVER s_three [])))) 5) = 1 \<and>
   snd (snd (the (uev_run_iteration no_user (no_tasks 0) 3 0 FOREVER s_three []))) =
     [(3, 0, UEV_READ), (5, 0, UEV_READ)]"
  by code_simp

section \<open>Lemmas: a timer with timeout zero\<close>

text \<open>
  A timer created with timeout 0 in a context with no other watcher is the only node
  of the list and has deadline 0. The entry loop of \<open>uev_run\<close>, the sweep and the
  steps of the other tasks that leave the watchers alone keep it so, and no callback is
  called.
\<close>

lemma uev_timer_init2_dormant:
  assumes "watchers (ctxs s c) = None" and "0 \<le> p"
  shows "\<exists>s1. uev_timer_init2 (Some c) (Some a) f x 0 p ts s = Some (0, s1) \<and>
           watchers (ctxs s1 c) = Some a \<and> w_next (heap s1 a) = None \<and>
           wtype (heap s1 a) = (if ts \<noteq> 0 then UEV_TIMER_TS_TYPE else UEV_TIMER_TYPE) \<and>
           ctx (heap s1 a) = Some c \<and> active (heap s1 a) = 1 \<and>
           t_timeout (heap s1 a) = 0 \<and> t_period (heap s1 a) = p \<and>
           t_deadline (heap s1 a) = 0 \<and> cb (heap s1 a) = f \<and>
           egh (ctxs s1 c) = egh (ctxs s c)"
proof -
  let ?ty = "if ts \<noteq> 0 then UEV_TIMER_TS_TYPE else UEV_TIMER_TYPE"
  let ?sb = "snd (i_uev_watcher_init (Some c) (Some a) ?ty f x (- 1) UEV_READ (i_uev_lock_init a s))"
  have ty: "wtype (heap ?sb a) = UEV_TIMER_TYPE \<or> wtype (heap ?sb a) = UEV_TIMER_TS_TYPE"
    by (simp add: i_uev_watcher_init_fields)
  have cx: "ctx (heap ?sb a) = Some c" by (simp add: i_uev_watcher_init_fields)
  have z: "(0::int) \<le> 0" by simp
  have sb: "watchers (ctxs ?sb c) = (if ts \<noteq> 0 then Some a else None)"
    "ts \<noteq> 0 \<Longrightarrow> w_next (heap ?sb a) = None" "cb (heap ?sb a) = f"
    "egh (ctxs ?sb c) = egh (ctxs s c)" "active (heap ?sb a) = 0"
    "wtype (heap ?sb a) = ?ty"
    using assms(1)
    by (simp_all add: i_uev_watcher_init_def i_uev_lock_init_def Let_def UEV_INSERT_head
          UEV_INSERT_next UEV_INSERT_frame UEV_INSERT_ctx_frame upd_w_sel)
  let ?s7 = "?sb\<lparr>reads := Suc (reads ?sb),
                 heap := (heap ?sb)(a := (heap ?sb a)\<lparr>t_timeout := 0, t_period := p,
                    t_deadline := 0\<rparr>),
                 ctxs := (ctxs ?sb)(c := (ctxs ?sb c)\<lparr>egb := egb (ctxs ?sb c) OR UEV_EG_BIT_TIMER\<rparr>)\<rparr>"
  have e: "uev_timer_set (Some a) 0 p ?sb = i_uev_watcher_start (Some a) ?s7"
    using uev_timer_set_timer_eq [OF cx ty z assms(2)] by simp
  have c7: "ctx (heap ?s7 a) = Some c" using cx by simp
  have ty7: "wtype (heap ?s7 a) = UEV_TIMER_TYPE \<or> wtype (heap ?s7 a) = UEV_TIMER_TS_TYPE"
    using ty by simp
  have st: "i_uev_watcher_start (Some a) ?s7 =
              (0, if ts \<noteq> 0 then upd_w a (\<lambda>x. x\<lparr>active := 1\<rparr>) ?s7
                  else UEV_INSERT a c (upd_w a (\<lambda>x. x\<lparr>active := 1\<rparr>) ?s7))"
    using i_uev_watcher_start_timer [OF c7 ty7] sb(5,6) by simp
  show ?thesis
    unfolding uev_timer_init2_eq [OF z assms(2)] e st
    using sb cx
    by (cases "ts \<noteq> 0")
       (simp_all add: UEV_INSERT_head UEV_INSERT_next UEV_INSERT_frame UEV_INSERT_ctx_frame
          upd_w_sel)
qed


lemma uev_run_rearm_dormant:
  assumes ty: "wtype (heap s a) = UEV_TIMER_TYPE \<or> wtype (heap s a) = UEV_TIMER_TS_TYPE"
    and cx: "ctx (heap s a) = Some c" and ac: "active (heap s a) > 0"
    and t0: "t_timeout (heap s a) = 0" and p: "0 \<le> t_period (heap s a)"
    and nx: "w_next (heap s a) = None"
  shows "\<exists>s1. uev_run_rearm (Suc n) (Some a) nd s = Some (0, s1) \<and>
           watchers (ctxs s1 c) = watchers (ctxs s c) \<and>
           running (ctxs s1 c) = running (ctxs s c) \<and>
           egb (ctxs s1 c) = egb (ctxs s c) OR UEV_EG_BIT_TIMER \<and>
           w_next (heap s1 a) = None \<and> wtype (heap s1 a) = wtype (heap s a) \<and>
           t_deadline (heap s1 a) = 0 \<and> t_timeout (heap s1 a) = 0 \<and>
           t_period (heap s1 a) = t_period (heap s a)"
proof -
  have z: "0 \<le> t_timeout (heap s a)" using t0 by simp
  let ?s7 = "s\<lparr>reads := Suc (reads s),
                 heap := (heap s)(a := (heap s a)\<lparr>t_timeout := t_timeout (heap s a),
                    t_period := t_period (heap s a),
                    t_deadline := (if running (ctxs s c) \<noteq> 0 \<and> t_timeout (heap s a) \<noteq> 0
                       then fst (i_uev_timer_now s) div 1000 + word_of_int (t_timeout (heap s a))
                       else 0)\<rparr>),
                 ctxs := (ctxs s)(c := (ctxs s c)\<lparr>egb := egb (ctxs s c) OR UEV_EG_BIT_TIMER\<rparr>)\<rparr>"
  have c7: "ctx (heap ?s7 a) = Some c" using cx by simp
  have ty7: "wtype (heap ?s7 a) = UEV_TIMER_TYPE \<or> wtype (heap ?s7 a) = UEV_TIMER_TS_TYPE"
    using ty by simp
  have e: "uev_timer_set (Some a) (t_timeout (heap s a)) (t_period (heap s a)) s = (0, ?s7)"
    unfolding uev_timer_set_timer_eq [OF cx ty z p] i_uev_watcher_start_timer [OF c7 ty7]
    using ac by simp
  have r1: "uev_run_rearm1 a nd s = (0, ?s7)"
    using ty t0 unfolding uev_run_rearm1_def e by (auto simp: word_gt_0)
  show ?thesis
    using nx t0 by (simp add: r1 Let_def)
qed

lemma sweep_dormant:
  assumes ty: "wtype (heap s a) = UEV_TIMER_TYPE \<or> wtype (heap s a) = UEV_TIMER_TS_TYPE"
    and dl: "t_deadline (heap s a) = 0" and nx: "w_next (heap s a) = None"
  shows "\<exists>s1. sweep user bits (Suc n) (Some a) nd s tr = Some (nd, s1, tr) \<and>
           heap s1 = heap s \<and> ctxs s1 = ctxs s"
proof (cases "active (heap s a) = 0")
  case True
  then show ?thesis using nx by (simp add: dispatch_watcher_def)
next
  case False
  have nf: "\<not> (0 < fst (i_uev_timer_now s) div 1000 \<and> t_deadline (heap s a) \<noteq> 0 \<and>
              t_deadline (heap s a) < fst (i_uev_timer_now s) div 1000)"
    using dl by simp
  have sw: "dispatch_switch bits a nd s = Some (False, 0, nd, s\<lparr>reads := Suc (reads s)\<rparr>)"
    using dispatch_timer_nofire [OF nf, of nd] ty dl by (simp add: dispatch_switch_timer)
  show ?thesis
    using nx by (simp add: dispatch_watcher_after [OF False sw] split: option.splits)
qed

lemma uev_run_iteration_dormant:
  assumes hd: "watchers (ctxs s c) = Some a"
    and ty: "wtype (heap s a) = UEV_TIMER_TYPE \<or> wtype (heap s a) = UEV_TIMER_TS_TYPE"
    and dl: "t_deadline (heap s a) = 0" and nx: "w_next (heap s a) = None"
    and fr: "\<And>t. heap (others t) = heap t \<and> watchers (ctxs (others t) c) = watchers (ctxs t c)"
  shows "case uev_run_iteration user others (Suc n) c nd s tr of None \<Rightarrow> True
         | Some (nd1, s1, tr1) \<Rightarrow>
             tr1 = tr \<and> heap s1 = heap s \<and> watchers (ctxs s1 c) = watchers (ctxs s c)"
    and "egb (ctxs s c) AND UEV_EG_MASK \<noteq> 0 \<Longrightarrow>
         \<exists>nd1 s1. uev_run_iteration user others (Suc n) c nd s tr = Some (nd1, s1, tr) \<and>
           heap s1 = heap s \<and> watchers (ctxs s1 c) = watchers (ctxs s c)"
proof -
  have S: "\<exists>s1. sweep user bits (Suc n) (watchers (ctxs t c)) FOREVER t tr =
                  Some (FOREVER, s1, tr) \<and> heap s1 = heap s \<and>
                  watchers (ctxs s1 c) = watchers (ctxs s c)"
    if "heap t = heap s" and "watchers (ctxs t c) = watchers (ctxs s c)" for t bits
  proof -
    have "wtype (heap t a) = UEV_TIMER_TYPE \<or> wtype (heap t a) = UEV_TIMER_TS_TYPE"
      "t_deadline (heap t a) = 0" "w_next (heap t a) = None"
      using that ty dl nx by simp_all
    from sweep_dormant [OF this, of user bits n FOREVER tr]
    show ?thesis using that hd by auto
  qed
  obtain now s1 where n: "i_uev_timer_now s = (now, s1)" by (cases "i_uev_timer_now s")
  have s1: "s1 = s\<lparr>reads := Suc (reads s)\<rparr>" using i_uev_timer_now_snd [of s] n by simp
  have W: "case xEventGroupWaitBits others c UEV_EG_MASK k s1 of None \<Rightarrow> True
           | Some (b, t) \<Rightarrow> heap t = heap s \<and> watchers (ctxs t c) = watchers (ctxs s c)" for k
    using fr by (simp add: xEventGroupWaitBits_def s1 Let_def upd_c_def)
  show "case uev_run_iteration user others (Suc n) c nd s tr of None \<Rightarrow> True
         | Some (nd1, s1, tr1) \<Rightarrow>
             tr1 = tr \<and> heap s1 = heap s \<and> watchers (ctxs s1 c) = watchers (ctxs s c)"
  proof (cases "xEventGroupWaitBits others c UEV_EG_MASK (tickstowait nd (now div 1000) s1) s1")
    case None
    then show ?thesis by (simp add: uev_run_iteration_def n)
  next
    case (Some bt)
    obtain b t where bt: "bt = (b, t)" by (cases bt)
    have "heap t = heap s" "watchers (ctxs t c) = watchers (ctxs s c)"
      using W [of "tickstowait nd (now div 1000) s1"] Some bt by simp_all
    from S [OF this, of b]
    show ?thesis using Some bt by (auto simp: uev_run_iteration_def n)
  qed
  show "\<exists>nd1 s1. uev_run_iteration user others (Suc n) c nd s tr = Some (nd1, s1, tr) \<and>
           heap s1 = heap s \<and> watchers (ctxs s1 c) = watchers (ctxs s c)"
    if b: "egb (ctxs s c) AND UEV_EG_MASK \<noteq> 0"
  proof -
    let ?t = "upd_c c (\<lambda>x. x\<lparr>egb := egb (ctxs s c) AND NOT UEV_EG_MASK\<rparr>) s1"
    have w: "xEventGroupWaitBits others c UEV_EG_MASK k s1 = Some (egb (ctxs s c), ?t)" for k
      using b by (simp add: xEventGroupWaitBits_def s1 Let_def)
    have "heap ?t = heap s" "watchers (ctxs ?t c) = watchers (ctxs s c)"
      by (simp_all add: s1 upd_c_def)
    from S [OF this, of "egb (ctxs s c)"]
    show ?thesis by (auto simp: uev_run_iteration_def n w)
  qed
qed

lemma uev_run_loop_dormant:
  assumes fr: "\<And>i t. heap (tasks i t) = heap t \<and>
                 watchers (ctxs (tasks i t) c) = watchers (ctxs t c)"
  shows "watchers (ctxs s c) = Some a \<Longrightarrow>
     wtype (heap s a) = UEV_TIMER_TYPE \<or> wtype (heap s a) = UEV_TIMER_TS_TYPE \<Longrightarrow>
     t_deadline (heap s a) = 0 \<Longrightarrow> w_next (heap s a) = None \<Longrightarrow>
     (case uev_run_loop user tasks (Suc n) k i c flags nd s tr of None \<Rightarrow> True
      | Some (s1, tr1) \<Rightarrow> tr1 = tr \<and> heap s1 = heap s)"
proof (induction k arbitrary: i nd s)
  case 0
  then show ?case by simp
next
  case (Suc k)
  show ?case
  proof (cases "running (ctxs s c) = 0")
    case True
    then show ?thesis by simp
  next
    case False
    note it = uev_run_iteration_dormant(1) [where user=user and others="tasks i" and n=n
        and nd=nd and tr=tr, OF Suc.prems fr]
    show ?thesis
    proof (cases "uev_run_iteration user (tasks i) (Suc n) c nd s tr")
      case None
      then show ?thesis using False by simp
    next
      case (Some r)
      obtain nd1 s1 tr1 where r: "r = (nd1, s1, tr1)" by (cases r)
      have f: "tr1 = tr" "heap s1 = heap s" "watchers (ctxs s1 c) = watchers (ctxs s c)"
        using it Some r by simp_all
      have i1: "watchers (ctxs s1 c) = Some a"
        "wtype (heap s1 a) = UEV_TIMER_TYPE \<or> wtype (heap s1 a) = UEV_TIMER_TS_TYPE"
        "t_deadline (heap s1 a) = 0" "w_next (heap s1 a) = None"
        using f Suc.prems by simp_all
      show ?thesis
        using Suc.IH [OF i1, of "Suc i" nd1] False Some r f
        by (auto split: option.splits)
    qed
  qed
qed

lemma TIMER_bit_set: "(x OR UEV_EG_BIT_TIMER) AND UEV_EG_MASK \<noteq> 0"
proof
  assume "(x OR UEV_EG_BIT_TIMER) AND UEV_EG_MASK = 0"
  then have "bit ((x OR UEV_EG_BIT_TIMER) AND UEV_EG_MASK) 2 = bit (0 :: u32) 2" by simp
  then show False
    by (simp add: UEV_EG_MASK_def UEV_EG_BIT_EVENT_def UEV_EG_BIT_IO_def
          UEV_EG_BIT_TIMER_def bit_simps)
qed

text \<open>The timer of \<open>s_dormant\<close> (timeout 0, period 100) in a loop without
  \<open>UEV_ONCE\<close>: \<open>wake_stop\<close> wakes the loop twice and stops it; the clock was read
  eight times, so eight seconds have passed when \<open>uev_run\<close> returns.\<close>

lemma dormant_loop_eval:
  "uev_run no_user wake_stop 1 4 (Some 0) 0 s_dormant \<noteq> None \<and>
   fst (the (uev_run no_user wake_stop 1 4 (Some 0) 0 s_dormant)) = 0 \<and>
   running (ctxs (fst (snd (the (uev_run no_user wake_stop 1 4 (Some 0) 0 s_dormant)))) 0) = 0 \<and>
   reads (fst (snd (the (uev_run no_user wake_stop 1 4 (Some 0) 0 s_dormant)))) = 8"
  by code_simp

section \<open>Claims about the dispatch loop\<close>

text \<open>
  C1. An active timer watcher (threadsafe or not, with a context) handled in the sweep,
  where \<open>now\<close> is the reading of the clock at that moment, in milliseconds, and
  \<open>fire\<close> is the condition \<open>now > 0\<close> and \<open>deadline > 0\<close> and \<open>now > deadline\<close>:
  the switch marks the watcher for delivery with events READ exactly when \<open>fire\<close>
  holds, and the callback (when the pointer is not NULL) is then called once, with READ.
  In the state the callback sees, the period is unchanged; the timeout is zeroed when
  \<open>fire\<close> holds and the period is 0; when \<open>fire\<close> holds and the timeout is then 0 the
  watcher is stopped (not active) and the deadline is left as it was, otherwise the
  deadline is \<open>now\<close> plus the period. When \<open>fire\<close> does not hold (so also when the
  clock reads 0) timeout, period, deadline and the active flag are unchanged and no
  callback is called.
\<close>

theorem timer_dispatch:
  fixes s :: st and a :: addr
  defines "now \<equiv> fst (i_uev_timer_now s) div 1000"
  defines "fire \<equiv> (0 < now \<and> 0 < t_deadline (heap s a) \<and> t_deadline (heap s a) < now)"
  assumes "active (heap s a) > 0"
    and "wtype (heap s a) = UEV_TIMER_TYPE \<or> wtype (heap s a) = UEV_TIMER_TS_TYPE"
    and "ctx (heap s a) = Some c"
  shows "\<exists>s1 nd1 s2.
           dispatch_switch bits a nd s = Some (fire, if fire then UEV_READ else 0, nd1, s1) \<and>
           dispatch_watcher user bits a nd s tr =
             Some (nd1, s2,
                   if fire \<and> cb (heap s a) \<noteq> None
                   then tr @ [(a, arg (heap s a), UEV_READ)] else tr) \<and>
           (if fire \<and> cb (heap s a) \<noteq> None then True else s2 = s1) \<and>
           t_period (heap s1 a) = t_period (heap s a) \<and>
           t_timeout (heap s1 a) =
             (if fire \<and> t_period (heap s a) = 0 then 0 else t_timeout (heap s a)) \<and>
           active (heap s1 a) =
             (if fire \<and> t_timeout (heap s1 a) = 0 then 0 else active (heap s a)) \<and>
           i_uev_watcher_active (Some a) s1 =
             (if fire \<and> t_timeout (heap s1 a) = 0 then 0 else 1) \<and>
           t_deadline (heap s1 a) =
             (if fire \<and> t_timeout (heap s1 a) \<noteq> 0
              then now + word_of_int (t_period (heap s a)) else t_deadline (heap s a))"
proof (cases fire)
  case True
  then have f: "0 < fst (i_uev_timer_now s) div 1000" "t_deadline (heap s a) \<noteq> 0"
    "t_deadline (heap s a) < fst (i_uev_timer_now s) div 1000"
    by (simp_all add: fire_def now_def word_greater_zero_iff)
  from dispatch_timer_fire [OF f assms(4,5,3), of nd]
  obtain s1 where d: "dispatch_timer a nd s =
           Some (True, UEV_READ,
                 if t_deadline (heap s1 a) \<noteq> 0 \<and> t_deadline (heap s1 a) < nd
                 then t_deadline (heap s1 a) else nd, s1)"
    and fs: "t_period (heap s1 a) = t_period (heap s a)"
      "t_timeout (heap s1 a) = (if t_period (heap s a) = 0 then 0 else t_timeout (heap s a))"
      "active (heap s1 a) = (if t_timeout (heap s1 a) = 0 then 0 else active (heap s a))"
      "t_deadline (heap s1 a) =
             (if t_timeout (heap s1 a) = 0 then t_deadline (heap s a)
              else fst (i_uev_timer_now s) div 1000 + word_of_int (t_period (heap s a)))"
      "cb (heap s1 a) = cb (heap s a)" "arg (heap s1 a) = arg (heap s a)"
    by blast
  have sw: "dispatch_switch bits a nd s =
           Some (True, UEV_READ,
                 if t_deadline (heap s1 a) \<noteq> 0 \<and> t_deadline (heap s1 a) < nd
                 then t_deadline (heap s1 a) else nd, s1)"
    using d assms(4) by (simp add: dispatch_switch_timer)
  have ne: "active (heap s a) \<noteq> 0" using assms(3) by simp
  note w = dispatch_watcher_after [OF ne sw, of user tr]
  have ac: "i_uev_watcher_active (Some a) s1 = (if t_timeout (heap s1 a) = 0 then 0 else 1)"
    using fs(3) assms(3) by (simp add: i_uev_watcher_active_def)
  show ?thesis
  proof (cases "cb (heap s a)")
    case None
    then show ?thesis
      using True fs ac by (simp add: sw w now_def)
  next
    case (Some f)
    then show ?thesis
      using True fs ac by (simp add: sw w now_def READ_masked)
  qed
next
  case False
  then have nf: "\<not> (0 < fst (i_uev_timer_now s) div 1000 \<and> t_deadline (heap s a) \<noteq> 0 \<and>
              t_deadline (heap s a) < fst (i_uev_timer_now s) div 1000)"
    by (simp add: fire_def now_def word_greater_zero_iff)
  note d = dispatch_timer_nofire [OF nf, of nd]
  have sw: "dispatch_switch bits a nd s = Some (False, 0,
                 if t_deadline (heap s a) \<noteq> 0 \<and> t_deadline (heap s a) < nd
                 then t_deadline (heap s a) else nd,
                 s\<lparr>reads := Suc (reads s)\<rparr>)"
    using d assms(4) by (simp add: dispatch_switch_timer)
  have ne: "active (heap s a) \<noteq> 0" using assms(3) by simp
  note w = dispatch_watcher_after [OF ne sw, of user tr]
  show ?thesis
    using False assms(3)
    by (simp add: sw w i_uev_watcher_active_def split: option.splits)
qed


theorem timer_dispatch_witness:
  "active (heap s_armed 1) > 0 \<and> wtype (heap s_armed 1) = UEV_TIMER_TYPE \<and>
   ctx (heap s_armed 1) = Some 0 \<and> t_deadline (heap s_armed 1) = 2010 \<and>
   fst (i_uev_timer_now s_armed) div 1000 = 3000 \<and>
   (\<exists>s1 nd1 s2.
      dispatch_switch UEV_EG_BIT_TIMER 1 FOREVER s_armed = Some (True, UEV_READ, nd1, s1) \<and>
      dispatch_watcher no_user UEV_EG_BIT_TIMER 1 FOREVER s_armed [] =
        Some (nd1, s2, [(1, 0, UEV_READ)]) \<and>
      t_timeout (heap s1 1) = 10 \<and> t_period (heap s1 1) = 20 \<and> active (heap s1 1) = 1 \<and>
      t_deadline (heap s1 1) = 3020)"
proof -
  have e: "active (heap s_armed 1) > 0" "wtype (heap s_armed 1) = UEV_TIMER_TYPE"
    "ctx (heap s_armed 1) = Some 0" "t_deadline (heap s_armed 1) = 2010"
    "fst (i_uev_timer_now s_armed) div 1000 = 3000"
    "t_timeout (heap s_armed 1) = 10" "t_period (heap s_armed 1) = 20"
    "cb (heap s_armed 1) = Some 7" "arg (heap s_armed 1) = 0" "active (heap s_armed 1) = 1"
    by (simp_all add: example_defs i_uev_timer_now_def esp_timer_get_time_def)
  show ?thesis
    using timer_dispatch [OF e(1) disjI1 [OF e(2)] e(3), of UEV_EG_BIT_TIMER FOREVER no_user "[]"] e
    by auto
qed

text \<open>
  C2. The code does not deliver the callback of the claim's timer. \<open>uev_timer_set\<close>
  arms a timer only when its timeout is not 0, so a periodic timer created with timeout
  0 has deadline 0; the entry loop of \<open>uev_run\<close> sets every timer again with its own
  timeout, which leaves the deadline 0, and the sweep fires only a timer whose deadline
  is not 0. For a context with no other watcher and a timer (threadsafe or not) created
  with timeout 0 and any period \<open>p\<close>: the timer is active with timeout 0, period
  \<open>p\<close> and deadline 0; \<open>uev_run\<close> with \<open>UEV_ONCE\<close> returns 0 after one iteration in which no
  callback was called, and the deadline is 0; and with any flags and any number of
  iterations, while the other tasks leave the watchers alone, a run that returns has
  called no callback and has left the deadline 0. The comment of \<open>uev_timer_init2\<close>
  says that a periodic timer with timeout zero is called as soon as the event loop
  starts; a timer with timeout 10 and period 20 does get its callback (lemma
  \<open>uev_run_armed_eval\<close>).
\<close>

theorem periodic_zero_timeout_never_fires:
  assumes em: "watchers (ctxs s c) = None" and eg: "egh (ctxs s c) \<noteq> None" and p: "0 \<le> p"
    and fr: "\<And>i t. heap (tasks i t) = heap t \<and>
                 watchers (ctxs (tasks i t) c) = watchers (ctxs t c)"
  shows "\<exists>s1. uev_timer_init2 (Some c) (Some a) f x 0 p ts s = Some (0, s1) \<and>
           i_uev_watcher_active (Some a) s1 = 1 \<and>
           t_timeout (heap s1 a) = 0 \<and> t_period (heap s1 a) = p \<and> cb (heap s1 a) = f \<and>
           t_deadline (heap s1 a) = 0 \<and>
           (\<exists>s2. uev_run user tasks (Suc n) (Suc k) (Some c) UEV_ONCE s1 = Some (0, s2, []) \<and>
                 t_deadline (heap s2 a) = 0) \<and>
           (\<forall>flags j. case uev_run user tasks (Suc n) j (Some c) flags s1 of
                         None \<Rightarrow> True
                       | Some (r, s2, tr) \<Rightarrow> tr = [] \<and> t_deadline (heap s2 a) = 0)"
proof -
  from uev_timer_init2_dormant [OF em p, of a f x ts]
  obtain s1 where i: "uev_timer_init2 (Some c) (Some a) f x 0 p ts s = Some (0, s1)"
    and hd: "watchers (ctxs s1 c) = Some a" and nx: "w_next (heap s1 a) = None"
    and ty: "wtype (heap s1 a) = (if ts \<noteq> 0 then UEV_TIMER_TS_TYPE else UEV_TIMER_TYPE)"
    and cx: "ctx (heap s1 a) = Some c" and ac: "active (heap s1 a) = 1"
    and tp: "t_timeout (heap s1 a) = 0" "t_period (heap s1 a) = p"
    and dl: "t_deadline (heap s1 a) = 0" and cbf: "cb (heap s1 a) = f"
    and eg1: "egh (ctxs s1 c) = egh (ctxs s c)"
    by blast
  let ?sr = "upd_c c (\<lambda>x. x\<lparr>running := 1\<rparr>) s1"
  have r: "wtype (heap ?sr a) = UEV_TIMER_TYPE \<or> wtype (heap ?sr a) = UEV_TIMER_TS_TYPE"
    "ctx (heap ?sr a) = Some c" "active (heap ?sr a) > 0" "t_timeout (heap ?sr a) = 0"
    "0 \<le> t_period (heap ?sr a)" "w_next (heap ?sr a) = None"
    using ty cx ac tp p nx by (simp_all add: upd_c_def)
  have "\<exists>s2. uev_run_rearm (Suc n) (Some a) nd ?sr = Some (0, s2) \<and>
           watchers (ctxs s2 c) = Some a \<and> running (ctxs s2 c) \<noteq> 0 \<and>
           egb (ctxs s2 c) AND UEV_EG_MASK \<noteq> 0 \<and>
           w_next (heap s2 a) = None \<and>
           (wtype (heap s2 a) = UEV_TIMER_TYPE \<or> wtype (heap s2 a) = UEV_TIMER_TS_TYPE) \<and>
           t_deadline (heap s2 a) = 0" for nd
    using uev_run_rearm_dormant [OF r, of n nd] hd r(1)
    by (auto simp: upd_c_def TIMER_bit_set)
  then obtain s2 where
    re: "\<And>nd. uev_run_rearm (Suc n) (Some a) nd ?sr = Some (0, s2 nd)"
    and hd2: "\<And>nd. watchers (ctxs (s2 nd) c) = Some a"
    and rn2: "\<And>nd. running (ctxs (s2 nd) c) \<noteq> 0"
    and eb2: "\<And>nd. egb (ctxs (s2 nd) c) AND UEV_EG_MASK \<noteq> 0"
    and nx2: "\<And>nd. w_next (heap (s2 nd) a) = None"
    and ty2: "\<And>nd. wtype (heap (s2 nd) a) = UEV_TIMER_TYPE \<or>
                 wtype (heap (s2 nd) a) = UEV_TIMER_TS_TYPE"
    and dl2: "\<And>nd. t_deadline (heap (s2 nd) a) = 0"
    by metis
  have run: "uev_run user tasks (Suc n) j (Some c) flags s1 =
           (case uev_run_loop user tasks (Suc n) j 0 c flags 0
                   (s2 (if flags AND UEV_NONBLOCK \<noteq> 0 then 0 else FOREVER)) [] of
              None \<Rightarrow> None | Some (s3, tr) \<Rightarrow> Some (0, s3, tr))" for j flags
  proof -
    obtain g where e: "egh (ctxs s1 c) = Some g" using eg eg1 by auto
    have w: "watchers (ctxs ?sr c) = Some a" using hd by (simp add: upd_c_def)
    show ?thesis
      unfolding uev_run_def using e
      by (simp add: Let_def w re del: uev_run_rearm.simps)
  qed
  have once: "\<exists>s3. uev_run user tasks (Suc n) (Suc k) (Some c) UEV_ONCE s1 = Some (0, s3, []) \<and>
                 t_deadline (heap s3 a) = 0"
  proof -
    let ?t = "s2 (if UEV_ONCE AND UEV_NONBLOCK \<noteq> 0 then 0 else FOREVER)"
    from uev_run_iteration_dormant(2) [where user=user and others="tasks 0" and n=n
        and nd=0 and tr="[]" and s="?t", OF hd2 ty2 dl2 nx2 fr eb2]
    obtain nd1 s3 where it: "uev_run_iteration user (tasks 0) (Suc n) c 0 ?t [] = Some (nd1, s3, [])"
      and h: "heap s3 = heap ?t"
      by blast
    have "uev_run user tasks (Suc n) (Suc k) (Some c) UEV_ONCE s1 = Some (0, s3, [])"
      unfolding run using rn2 it by (simp add: UEV_ONCE_def)
    then show ?thesis using h dl2 by simp
  qed
  have all: "case uev_run user tasks (Suc n) j (Some c) flags s1 of
                         None \<Rightarrow> True
                       | Some (r, s3, tr) \<Rightarrow> tr = [] \<and> t_deadline (heap s3 a) = 0" for flags j
    unfolding run
    using uev_run_loop_dormant [where user=user and tasks=tasks and n=n and k=j and i=0
        and flags=flags and nd=0 and tr="[]"
        and s="s2 (if flags AND UEV_NONBLOCK \<noteq> 0 then 0 else FOREVER)",
        OF fr hd2 ty2 dl2 nx2] dl2
    by (auto split: option.splits)
  show ?thesis
    using i ac tp cbf dl once all by (auto simp: i_uev_watcher_active_def)
qed

theorem periodic_zero_timeout_never_fires_witness:
  "watchers (ctxs s0 0) = None \<and> egh (ctxs s0 0) \<noteq> None \<and>
   (\<forall>i t. heap (wake_stop i t) = heap t \<and>
           watchers (ctxs (wake_stop i t) 0) = watchers (ctxs t 0)) \<and>
   uev_timer_init (Some 0) (Some 1) (Some 7) 0 0 100 s0 = Some (0, s_dormant) \<and>
   i_uev_watcher_active (Some 1) s_dormant = 1 \<and> t_timeout (heap s_dormant 1) = 0 \<and>
   t_period (heap s_dormant 1) = 100 \<and> cb (heap s_dormant 1) = Some 7 \<and>
   t_deadline (heap s_dormant 1) = 0 \<and>
   (\<exists>s2. uev_run no_user wake_stop 1 1 (Some 0) UEV_ONCE s_dormant = Some (0, s2, []) \<and>
         t_deadline (heap s2 1) = 0) \<and>
   (\<exists>s2. uev_run no_user wake_stop 1 4 (Some 0) 0 s_dormant = Some (0, s2, []) \<and>
         t_deadline (heap s2 1) = 0)"
proof -
  have fr: "heap (wake_stop i t) = heap t \<and>
            watchers (ctxs (wake_stop i t) 0) = watchers (ctxs t 0)" for i t
    by (simp add: wake_stop_def upd_c_def)
  have e: "watchers (ctxs s0 0) = None" "egh (ctxs s0 0) \<noteq> None" "(0::int) \<le> 100"
    by (simp_all add: s0_def c0_def)
  have i: "uev_timer_init2 (Some 0) (Some 1) (Some 7) 0 0 100 0 s0 = Some (0, s_dormant)"
    using s_dormant_init by (simp add: uev_timer_init_def)
  from periodic_zero_timeout_never_fires [where user=no_user and tasks=wake_stop and a=1
      and f="Some 7" and x=0 and ts=0 and n=0 and k=0, OF e fr]
  have T: "i_uev_watcher_active (Some 1) s_dormant = 1" "t_timeout (heap s_dormant 1) = 0"
    "t_period (heap s_dormant 1) = 100" "cb (heap s_dormant 1) = Some 7"
    "t_deadline (heap s_dormant 1) = 0"
    "\<exists>s2. uev_run no_user wake_stop 1 1 (Some 0) UEV_ONCE s_dormant = Some (0, s2, []) \<and>
         t_deadline (heap s2 1) = 0"
    "case uev_run no_user wake_stop 1 4 (Some 0) 0 s_dormant of None \<Rightarrow> True
     | Some (r, s2, tr) \<Rightarrow> tr = [] \<and> t_deadline (heap s2 1) = 0"
    unfolding i by auto
  have L: "\<exists>s2. uev_run no_user wake_stop 1 4 (Some 0) 0 s_dormant = Some (0, s2, []) \<and>
         t_deadline (heap s2 1) = 0"
    using T(7) dormant_loop_eval by (auto split: option.splits)
  show ?thesis using e i T(1-6) L fr by (simp add: uev_timer_init_def)
qed

text \<open>
  C3. The claim holds for the sweep (lemma \<open>sweep_deadline_nonzero\<close>) and fails for
  the entry loop, which has no test of the deadline: in \<open>s_dormant_run\<close> the timer has
  timeout 0, the entry loop leaves its deadline 0 and returns 0 as the next deadline,
  and the first wait is then computed as 0 ticks, where the deadline of a loop with no
  armed timer gives \<open>portMAX_DELAY\<close>.
\<close>

theorem rearm_latches_zero:
  "t_timeout (heap s_dormant_run 1) = 0 \<and>
   uev_run_rearm 1 (watchers (ctxs s_dormant_run 0)) FOREVER s_dormant_run \<noteq> None \<and>
   t_deadline (heap (snd (the (uev_run_rearm 1 (watchers (ctxs s_dormant_run 0)) FOREVER
      s_dormant_run))) 1) = 0 \<and>
   fst (the (uev_run_rearm 1 (watchers (ctxs s_dormant_run 0)) FOREVER s_dormant_run)) = 0 \<and>
   tickstowait 0 3000 s_dormant_run = 0 \<and>
   tickstowait FOREVER 3000 s_dormant_run = portMAX_DELAY"
  by code_simp

text \<open>
  C4, amended. \<open>uev_timer_stop\<close> on an active timer that is in the watcher list of its
  context clears the active flag and unlinks the timer, threadsafe or not. It is the
  internal \<open>_uev_timer_stop\<close>, which the dispatch loop calls, that leaves an active
  threadsafe timer in the list. On a timer that is not active \<open>uev_timer_stop\<close>
  leaves the active flag alone and still unlinks a timer that is in the list (a
  threadsafe timer that the loop has stopped); it changes nothing when the timer is not
  in the list and its links are NULL.
\<close>

theorem uev_timer_stop_unlinks:
  assumes "ctx (heap s a) = Some c"
    and "wtype (heap s a) = UEV_TIMER_TYPE \<or> wtype (heap s a) = UEV_TIMER_TS_TYPE"
    and "wlist s c xs"
  shows "(active (heap s a) > 0 \<and> a \<in> set xs \<longrightarrow>
            (\<exists>s'. uev_timer_stop (Some a) s = Some (0, s') \<and> active (heap s' a) = 0 \<and>
                  wlist s' c (remove1 a xs) \<and> a \<notin> set (remove1 a xs))) \<and>
         (active (heap s a) > 0 \<and> wtype (heap s a) = UEV_TIMER_TS_TYPE \<longrightarrow>
            (\<exists>s'. i_uev_timer_stop (Some a) s = Some (0, s') \<and> active (heap s' a) = 0 \<and>
                  wlist s' c xs)) \<and>
         (\<not> active (heap s a) > 0 \<and> a \<in> set xs \<longrightarrow>
            (\<exists>s'. uev_timer_stop (Some a) s = Some (0, s') \<and>
                  active (heap s' a) = active (heap s a) \<and>
                  wlist s' c (remove1 a xs) \<and> a \<notin> set (remove1 a xs))) \<and>
         (\<not> active (heap s a) > 0 \<and> a \<notin> set xs \<and>
          w_next (heap s a) = None \<and> w_prev (heap s a) = None \<longrightarrow>
            uev_timer_stop (Some a) s = Some (0, s))"
proof -
  let ?s0 = "upd_w a (\<lambda>x. x\<lparr>active := 0\<rparr>) s"
  have w0: "wlist ?s0 c xs"
    using assms(3) by (subst wlist_cong [of _ s]) (simp_all add: upd_w_def)
  have a0: "active (heap ?s0 a) = 0" by (simp add: upd_w_def)
  have p1: "\<exists>s'. uev_timer_stop (Some a) s = Some (0, s') \<and> active (heap s' a) = 0 \<and>
                  wlist s' c (remove1 a xs) \<and> a \<notin> set (remove1 a xs)"
    if act: "active (heap s a) > 0" and mem: "a \<in> set xs"
  proof -
    let ?s1 = "UEV_REMOVE a c ?s0"
    have w1: "wlist ?s1 c (remove1 a xs)" using w0 mem by (rule wlist_REMOVE)
    have n1: "a \<notin> set (remove1 a xs)" using assms(3) by (rule wlist_distinct_remove1)
    have "UEV_REMOVE a c ?s1 = ?s1"
      using w1 n1 by (rule wlist_REMOVE_unlinked) (simp_all add: UEV_REMOVE_next UEV_REMOVE_prev)
    then have "uev_timer_stop (Some a) s = Some (0, ?s1)"
      using uev_timer_stop_active [OF assms(1) act assms(2)] by simp
    then show ?thesis using w1 n1 a0 by (simp add: UEV_REMOVE_frame)
  qed
  have p2: "\<exists>s'. i_uev_timer_stop (Some a) s = Some (0, s') \<and> active (heap s' a) = 0 \<and>
                  wlist s' c xs"
    if act: "active (heap s a) > 0" and ts: "wtype (heap s a) = UEV_TIMER_TS_TYPE"
    using i_uev_timer_stop_active [OF assms(1) act assms(2)] ts w0 a0 by simp
  have p3: "\<exists>s'. uev_timer_stop (Some a) s = Some (0, s') \<and>
                  active (heap s' a) = active (heap s a) \<and>
                  wlist s' c (remove1 a xs) \<and> a \<notin> set (remove1 a xs)"
    if act: "\<not> active (heap s a) > 0" and mem: "a \<in> set xs"
    using uev_timer_stop_inactive [OF assms(1) act] wlist_REMOVE [OF assms(3) mem]
      wlist_distinct_remove1 [OF assms(3)]
    by (simp add: UEV_REMOVE_frame)
  have p4: "uev_timer_stop (Some a) s = Some (0, s)"
    if act: "\<not> active (heap s a) > 0" and mem: "a \<notin> set xs"
      and l: "w_next (heap s a) = None" "w_prev (heap s a) = None"
    using uev_timer_stop_inactive [OF assms(1) act] wlist_REMOVE_unlinked [OF assms(3) mem l]
    by simp
  show ?thesis using p1 p2 p3 p4 by blast
qed

theorem uev_timer_stop_unlinks_witness:
  "ctx (heap s_ts 1) = Some 0 \<and> wtype (heap s_ts 1) = UEV_TIMER_TS_TYPE \<and> wlist s_ts 0 [1] \<and>
   active (heap s_ts 1) > 0 \<and>
   (\<exists>s'. uev_timer_stop (Some 1) s_ts = Some (0, s') \<and> active (heap s' 1) = 0 \<and> wlist s' 0 []) \<and>
   (\<exists>s'. i_uev_timer_stop (Some 1) s_ts = Some (0, s') \<and> active (heap s' 1) = 0 \<and> wlist s' 0 [1])"
proof -
  have e: "ctx (heap s_ts 1) = Some 0" "wtype (heap s_ts 1) = UEV_TIMER_TS_TYPE"
    "wlist s_ts 0 [1]" "active (heap s_ts 1) > 0"
    using s_ts_eval by (simp_all add: wlist_def)
  show ?thesis
    using uev_timer_stop_unlinks [OF e(1) disjI2 [OF e(2)] e(3)] e by simp
qed


text \<open>The claim C4 as stated fails for the threadsafe timer of \<open>s_ts\<close>: it is active
  and the head of the list of context 0, and after \<open>uev_timer_stop\<close> the list is
  empty.\<close>

theorem uev_timer_stop_ts_counterexample:
  "wtype (heap s_ts 1) = UEV_TIMER_TS_TYPE \<and> active (heap s_ts 1) = 1 \<and>
   watchers (ctxs s_ts 0) = Some 1 \<and>
   uev_timer_stop (Some 1) s_ts \<noteq> None \<and>
   fst (the (uev_timer_stop (Some 1) s_ts)) = 0 \<and>
   watchers (ctxs (snd (the (uev_timer_stop (Some 1) s_ts))) 0) = None"
  by code_simp




text \<open>
  C6. An active I/O watcher. A round of the selector ORs into the pending word a set
  of bits \<open>e\<close> within READ, WRITE and ERROR, each only when the descriptor is in the
  matching set and the bit is in the requested mask, and leaves the mask alone. The
  dispatcher passes the pending word, cut to \<open>UEV_EVENT_MASK\<close>, to the callback when
  the wake bits hold the IO bit, the word is not 0 and the pointer is not NULL. So
  when neither the mask nor the pending word (0 after the initialisation) holds WRITE,
  no round of the selector puts WRITE into the pending word, and in any sequence of
  selector rounds and dispatches, with callbacks that leave the mask, the pending word
  and the type of the watcher alone, no callback gets WRITE.
\<close>

theorem io_events_masked:
  assumes "wtype (heap s a) = UEV_IO_TYPE" and "active (heap s a) > 0"
  shows "(task_fn_collect fds s = Some s' \<longrightarrow>
            (\<exists>e. iot_events (heap s' a) = iot_events (heap s a) OR e \<and>
                 events (heap s' a) = events (heap s a) \<and>
                 (e AND UEV_READ \<noteq> 0 \<longrightarrow>
                    fd (heap s a) \<in> readfds fds \<and> events (heap s a) AND UEV_READ \<noteq> 0) \<and>
                 (e AND UEV_WRITE \<noteq> 0 \<longrightarrow>
                    fd (heap s a) \<in> writefds fds \<and> events (heap s a) AND UEV_WRITE \<noteq> 0) \<and>
                 (e AND UEV_ERROR \<noteq> 0 \<longrightarrow>
                    fd (heap s a) \<in> exceptfds fds \<and> events (heap s a) AND UEV_ERROR \<noteq> 0) \<and>
                 e AND NOT UEV_EVENT_MASK = 0)) \<and>
         (\<exists>s1. dispatch_watcher user bits a nd s tr =
                 Some (nd, s1,
                       if bits AND UEV_EG_BIT_IO \<noteq> 0 \<and> iot_events (heap s a) \<noteq> 0 \<and>
                          cb (heap s a) \<noteq> None
                       then tr @ [(a, arg (heap s a), iot_events (heap s a) AND UEV_EVENT_MASK)]
                       else tr)) \<and>
         (events (heap s a) AND UEV_WRITE = 0 \<and> iot_events (heap s a) AND UEV_WRITE = 0 \<longrightarrow>
            (task_fn_collect fds s = Some s' \<longrightarrow> iot_events (heap s' a) AND UEV_WRITE = 0) \<and>
            (iot_events (heap s a) AND UEV_EVENT_MASK) AND UEV_WRITE = 0 \<and>
            ((\<forall>f w x ev t. events (heap (user f w x ev t) a) = events (heap t a) \<and>
                iot_events (heap (user f w x ev t) a) = iot_events (heap t a) \<and>
                wtype (heap (user f w x ev t) a) = wtype (heap t a)) \<and>
             io_run user a steps s [] = Some (s'', tr'') \<longrightarrow>
               (\<forall>e \<in> set tr''. snd (snd e) AND UEV_WRITE = 0)))"
proof -
  have A: "\<exists>e. iot_events (heap s' a) = iot_events (heap s a) OR e \<and>
                 events (heap s' a) = events (heap s a) \<and>
                 (e AND UEV_READ \<noteq> 0 \<longrightarrow>
                    fd (heap s a) \<in> readfds fds \<and> events (heap s a) AND UEV_READ \<noteq> 0) \<and>
                 (e AND UEV_WRITE \<noteq> 0 \<longrightarrow>
                    fd (heap s a) \<in> writefds fds \<and> events (heap s a) AND UEV_WRITE \<noteq> 0) \<and>
                 (e AND UEV_ERROR \<noteq> 0 \<longrightarrow>
                    fd (heap s a) \<in> exceptfds fds \<and> events (heap s a) AND UEV_ERROR \<noteq> 0) \<and>
                 e AND NOT UEV_EVENT_MASK = 0"
    if c: "task_fn_collect fds s = Some s'"
  proof (cases "a \<in> set (iolist s) \<and> active (heap s a) > 0 \<and> 0 \<le> fd (heap s a)")
    case True
    show ?thesis
      apply (rule exI [of _ "task_fn_events fds a s"])
      using task_fn_collect_fields [OF c, of a] True task_fn_events_bits [of fds a s]
      by simp
  next
    case False
    show ?thesis
      apply (rule exI [of _ 0])
      using task_fn_collect_fields [OF c, of a] False
      by auto
  qed
  have ne: "active (heap s a) \<noteq> 0" using assms(2) by simp
  note w = dispatch_watcher_after [OF ne dispatch_switch_io [OF assms(1)], of user bits nd tr]
  have B: "\<exists>s1. dispatch_watcher user bits a nd s tr =
                 Some (nd, s1,
                       if bits AND UEV_EG_BIT_IO \<noteq> 0 \<and> iot_events (heap s a) \<noteq> 0 \<and>
                          cb (heap s a) \<noteq> None
                       then tr @ [(a, arg (heap s a), iot_events (heap s a) AND UEV_EVENT_MASK)]
                       else tr)"
  proof -
    have "(if (bits AND UEV_EG_BIT_IO \<noteq> 0 \<and> iot_events (heap s a) \<noteq> 0) \<and> cb (heap s a) \<noteq> None
           then tr @ [(a, arg (heap s a),
                  (if bits AND UEV_EG_BIT_IO \<noteq> 0 \<and> iot_events (heap s a) \<noteq> 0
                   then iot_events (heap s a) else 0) AND UEV_EVENT_MASK)]
           else tr) =
          (if bits AND UEV_EG_BIT_IO \<noteq> 0 \<and> iot_events (heap s a) \<noteq> 0 \<and>
                          cb (heap s a) \<noteq> None
                       then tr @ [(a, arg (heap s a), iot_events (heap s a) AND UEV_EVENT_MASK)]
                       else tr)"
      by simp
    then show ?thesis unfolding w by simp
  qed
  have C1: "iot_events (heap s' a) AND UEV_WRITE = 0"
    if c: "task_fn_collect fds s = Some s'"
      and m: "events (heap s a) AND UEV_WRITE = 0" "iot_events (heap s a) AND UEV_WRITE = 0"
    using task_fn_collect_fields [OF c, of a] m task_fn_events_bits(2) [of fds a s]
    by (auto simp: bit.conj_disj_distrib2)
  have C2: "(iot_events (heap s a) AND UEV_EVENT_MASK) AND UEV_WRITE = 0"
    if "iot_events (heap s a) AND UEV_WRITE = 0"
    using that by (simp add: WRITE_of_masked)
  have C3: "\<forall>e \<in> set tr''. snd (snd e) AND UEV_WRITE = 0"
    if "\<forall>f w x ev t. events (heap (user f w x ev t) a) = events (heap t a) \<and>
                iot_events (heap (user f w x ev t) a) = iot_events (heap t a) \<and>
                wtype (heap (user f w x ev t) a) = wtype (heap t a)"
      and "io_run user a steps s [] = Some (s'', tr'')"
      and "events (heap s a) AND UEV_WRITE = 0" "iot_events (heap s a) AND UEV_WRITE = 0"
    using io_run_no_write [OF that(2) assms(1) that(3,4) that(1)] by simp
  show ?thesis using A B C1 C2 C3 by blast
qed


theorem io_events_masked_witness:
  "wtype (heap s_io 2) = UEV_IO_TYPE \<and> active (heap s_io 2) > 0 \<and>
   events (heap s_io 2) AND UEV_WRITE = 0 \<and> iot_events (heap s_io 2) AND UEV_WRITE = 0 \<and>
   io_run no_user 2
     [Select \<lparr>readfds = {5}, writefds = {5}, exceptfds = {}\<rparr>, Dispatch UEV_EG_BIT_IO FOREVER]
     s_io [] \<noteq> None \<and>
   snd (the (io_run no_user 2
     [Select \<lparr>readfds = {5}, writefds = {5}, exceptfds = {}\<rparr>, Dispatch UEV_EG_BIT_IO FOREVER]
     s_io [])) = [(2, 0, UEV_READ)] \<and>
   snd (snd (hd (snd (the (io_run no_user 2
       [Select \<lparr>readfds = {5}, writefds = {5}, exceptfds = {}\<rparr>, Dispatch UEV_EG_BIT_IO FOREVER]
       s_io []))))) AND UEV_WRITE = 0"
proof -
  have e: "wtype (heap s_io 2) = UEV_IO_TYPE" "active (heap s_io 2) > 0"
    "events (heap s_io 2) AND UEV_WRITE = 0" "iot_events (heap s_io 2) AND UEV_WRITE = 0"
    by (simp_all add: example_defs UEV_READ_def UEV_WRITE_def)
  let ?steps = "[Select \<lparr>readfds = {5}, writefds = {5}, exceptfds = {}\<rparr>,
                 Dispatch UEV_EG_BIT_IO FOREVER]"
  obtain s2 tr2 where r: "io_run no_user 2 ?steps s_io [] = Some (s2, tr2)"
    using io_run_eval by (cases "io_run no_user 2 ?steps s_io []") auto
  have "\<forall>e \<in> set tr2. snd (snd e) AND UEV_WRITE = 0"
    using io_events_masked [OF e(1,2), of "\<lparr>readfds = {}, writefds = {}, exceptfds = {}\<rparr>" s_io
        no_user 0 0 "[]" ?steps s2 tr2] e r
    by (simp add: no_user_def)
  then show ?thesis using e r io_run_eval by auto
qed

text \<open>
  C7. \<open>uev_timer_set\<close> returns -1 with \<open>errno\<close> set to \<open>EINVAL\<close> when the watcher
  is NULL or has no context, and -1 with \<open>errno\<close> set to \<open>ERANGE\<close> when the watcher
  is valid and the timeout or the period is negative. In each of these cases nothing
  but \<open>errno\<close> changes: the heap of the watchers (so the timeout, the period and the
  deadline of every timer) and the contexts are as before.
\<close>

theorem uev_timer_set_errors:
  assumes "w = None \<or> (\<exists>a. w = Some a \<and> ctx (heap s a) = None) \<or> t < 0 \<or> p < 0"
  shows "fst (uev_timer_set w t p s) = - 1 \<and>
         errno (snd (uev_timer_set w t p s)) =
           (if w = None \<or> (\<exists>a. w = Some a \<and> ctx (heap s a) = None) then EINVAL else ERANGE) \<and>
         heap (snd (uev_timer_set w t p s)) = heap s \<and>
         ctxs (snd (uev_timer_set w t p s)) = ctxs s \<and>
         snd (uev_timer_set w t p s) = s\<lparr>errno := errno (snd (uev_timer_set w t p s))\<rparr>"
  using assms by (auto simp: uev_timer_set_def split: option.splits)

theorem uev_timer_set_errors_witness:
  "ctx (heap s0 1) = None \<and>
   fst (uev_timer_set (Some 1) 5 5 s0) = - 1 \<and>
   errno (snd (uev_timer_set (Some 1) 5 5 s0)) = EINVAL \<and>
   heap (snd (uev_timer_set (Some 1) 5 5 s0)) = heap s0 \<and>
   ctx (heap s_stopped 1) = Some 0 \<and>
   fst (uev_timer_set (Some 1) (- 5) 5 s_stopped) = - 1 \<and>
   errno (snd (uev_timer_set (Some 1) (- 5) 5 s_stopped)) = ERANGE \<and>
   heap (snd (uev_timer_set (Some 1) (- 5) 5 s_stopped)) = heap s_stopped"
proof -
  have c: "ctx (heap s0 1) = None" by (simp add: s0_def w0_def)
  have d: "ctx (heap s_stopped 1) = Some 0" using s_stopped_eval by simp
  show ?thesis
    using c d uev_timer_set_errors [of "Some 1" s0 5 5]
      uev_timer_set_errors [of "Some 1" s_stopped "- 5" 5]
    by simp
qed

text \<open>
  C8. After a successful \<open>uev_timer_init\<close> (or \<open>uev_timer_init2\<close>, which also makes
  threadsafe timers) with any initial timeout and period, the calls
  \<open>uev_timer_set(w, a, b)\<close>, \<open>uev_timer_start(w)\<close> and \<open>uev_timer_stop(w)\<close> with
  non-negative \<open>a\<close> and \<open>b\<close> all return 0, and they leave the watcher inactive with
  timeout \<open>a\<close> and period \<open>b\<close>.
\<close>

theorem timer_roundtrip:
  assumes "uev_timer_init c w f x t0 p0 s = Some (0, s1) \<or>
           uev_timer_init2 c w f x t0 p0 ts s = Some (0, s1)"
    and "0 \<le> a" and "0 \<le> b"
  shows "\<exists>wa s2 s3 s4. w = Some wa \<and>
           uev_timer_set w a b s1 = (0, s2) \<and>
           uev_timer_start w s2 = Some (0, s3) \<and>
           uev_timer_stop w s3 = Some (0, s4) \<and>
           i_uev_watcher_active w s4 = 0 \<and> active (heap s4 wa) = 0 \<and>
           t_timeout (heap s4 wa) = a \<and> t_period (heap s4 wa) = b"
proof -
  obtain ts' where "uev_timer_init2 c w f x t0 p0 ts' s = Some (0, s1)"
    using assms(1) by (auto simp: uev_timer_init_def)
  then obtain wa ca where w: "w = Some wa" and c1: "ctx (heap s1 wa) = Some ca"
    and ty1: "wtype (heap s1 wa) = UEV_TIMER_TYPE \<or> wtype (heap s1 wa) = UEV_TIMER_TS_TYPE"
    and fd1: "fd (heap s1 wa) = - 1" and ac1: "active (heap s1 wa) = 1"
    using uev_timer_init2_success by blast
  let ?s2 = "snd (uev_timer_set (Some wa) a b s1)"
  note F2 = uev_timer_set_timer_fields [OF c1 ty1 assms(2,3)]
  have c2: "ctx (heap ?s2 wa) = Some ca" and fd2: "fd (heap ?s2 wa) = - 1"
    and ty2: "wtype (heap ?s2 wa) = UEV_TIMER_TYPE \<or> wtype (heap ?s2 wa) = UEV_TIMER_TS_TYPE"
    using F2 ty1 fd1 by simp_all
  let ?s3 = "snd (uev_timer_set (Some wa) a b ?s2)"
  note F3 = uev_timer_set_timer_fields [OF c2 ty2 assms(2,3)]
  have st: "uev_timer_start (Some wa) ?s2 = Some (0, ?s3)"
    using F2(2,3) F3(1) by (simp add: uev_timer_start_fd [OF fd2] prod_eq_iff)
  have c3: "ctx (heap ?s3 wa) = Some ca" and ac3: "active (heap ?s3 wa) > 0"
    and ty3: "wtype (heap ?s3 wa) = UEV_TIMER_TYPE \<or> wtype (heap ?s3 wa) = UEV_TIMER_TS_TYPE"
    using F3 F2 ty1 ac1 by simp_all
  obtain s4 where sp: "uev_timer_stop (Some wa) ?s3 = Some (0, s4)"
    and s4: "s4 = UEV_REMOVE wa ca (upd_w wa (\<lambda>x. x\<lparr>active := 0\<rparr>) ?s3) \<or>
             s4 = UEV_REMOVE wa ca (UEV_REMOVE wa ca (upd_w wa (\<lambda>x. x\<lparr>active := 0\<rparr>) ?s3))"
    using uev_timer_stop_active [OF c3 ac3 ty3] by (cases "wtype (heap ?s3 wa) = UEV_TIMER_TS_TYPE") auto
  have f4: "active (heap s4 wa) = 0" "t_timeout (heap s4 wa) = a" "t_period (heap s4 wa) = b"
    using s4 F3(2,3) by (auto simp: UEV_REMOVE_frame upd_w_def)
  have e2: "uev_timer_set (Some wa) a b s1 = (0, ?s2)"
    using F2(1) by (simp add: prod_eq_iff)
  have a4: "i_uev_watcher_active (Some wa) s4 = 0"
    using f4 by (simp add: i_uev_watcher_active_def)
  show ?thesis
    unfolding w using e2 st sp a4 f4 by blast
qed


theorem timer_roundtrip_witness:
  "uev_timer_init (Some 0) (Some 1) (Some 7) 0 10 20 s0 = Some (0, s_timer) \<and>
   (\<exists>s2 s3 s4.
      uev_timer_set (Some 1) 30 40 s_timer = (0, s2) \<and>
      uev_timer_start (Some 1) s2 = Some (0, s3) \<and>
      uev_timer_stop (Some 1) s3 = Some (0, s4) \<and>
      i_uev_watcher_active (Some 1) s4 = 0 \<and> active (heap s4 1) = 0 \<and>
      t_timeout (heap s4 1) = 30 \<and> t_period (heap s4 1) = 40)"
  using timer_roundtrip [OF disjI1 [OF s_timer_init], of 30 40] s_timer_init by simp

text \<open>
  C9. For a timer watcher with a context and non-negative arguments, \<open>uev_timer_set\<close>
  returns 0, sets the TIMER bit in the event group of the context whoever the caller is
  (task or interrupt handler), and leaves the watcher active: a watcher that was not
  active gets its active flag set, and when it is not threadsafe it becomes the head of
  the watcher list of its context; a threadsafe timer keeps the linkage it has. So a
  stopped timer is active again after \<open>uev_timer_set\<close> alone.
\<close>

theorem uev_timer_set_starts_timer:
  assumes "ctx (heap s a) = Some c"
    and "wtype (heap s a) = UEV_TIMER_TYPE \<or> wtype (heap s a) = UEV_TIMER_TS_TYPE"
    and "0 \<le> t" and "0 \<le> p"
  shows "fst (uev_timer_set (Some a) t p s) = 0 \<and>
         egb (ctxs (snd (uev_timer_set (Some a) t p s)) c) = egb (ctxs s c) OR UEV_EG_BIT_TIMER \<and>
         i_uev_watcher_active (Some a) (snd (uev_timer_set (Some a) t p s)) = 1 \<and>
         (\<not> active (heap s a) > 0 \<longrightarrow>
            active (heap (snd (uev_timer_set (Some a) t p s)) a) = 1) \<and>
         (\<not> active (heap s a) > 0 \<and> wtype (heap s a) = UEV_TIMER_TYPE \<and>
          wlist s c xs \<and> a \<notin> set xs \<longrightarrow>
            wlist (snd (uev_timer_set (Some a) t p s)) c (a # xs)) \<and>
         (wtype (heap s a) = UEV_TIMER_TS_TYPE \<and> wlist s c xs \<longrightarrow>
            wlist (snd (uev_timer_set (Some a) t p s)) c xs)"
proof -
  note F = uev_timer_set_timer_fields [OF assms]
  have l1: "wlist (snd (uev_timer_set (Some a) t p s)) c (a # xs)"
    if "\<not> active (heap s a) > 0" "wtype (heap s a) = UEV_TIMER_TYPE" "wlist s c xs" "a \<notin> set xs"
    using uev_timer_set_timer_list [OF assms that(3)] that by simp
  have l2: "wlist (snd (uev_timer_set (Some a) t p s)) c xs"
    if "wtype (heap s a) = UEV_TIMER_TS_TYPE" "wlist s c xs"
    using uev_timer_set_timer_list [OF assms that(2)] that by simp
  have ac: "i_uev_watcher_active (Some a) (snd (uev_timer_set (Some a) t p s)) = 1"
    using F(5) by (simp add: i_uev_watcher_active_def)
  show ?thesis using F(1,5,6) ac l1 l2 by simp
qed


theorem uev_timer_set_starts_timer_witness:
  "ctx (heap s_stopped 1) = Some 0 \<and> wtype (heap s_stopped 1) = UEV_TIMER_TYPE \<and>
   \<not> active (heap s_stopped 1) > 0 \<and> wlist s_stopped 0 [] \<and>
   fst (uev_timer_set (Some 1) 50 0 s_stopped) = 0 \<and>
   egb (ctxs (snd (uev_timer_set (Some 1) 50 0 s_stopped)) 0) =
     egb (ctxs s_stopped 0) OR UEV_EG_BIT_TIMER \<and>
   active (heap (snd (uev_timer_set (Some 1) 50 0 s_stopped)) 1) = 1 \<and>
   wlist (snd (uev_timer_set (Some 1) 50 0 s_stopped)) 0 [1]"
proof -
  have e: "ctx (heap s_stopped 1) = Some 0" "wtype (heap s_stopped 1) = UEV_TIMER_TYPE"
    "\<not> active (heap s_stopped 1) > 0" "wlist s_stopped 0 []"
    using s_stopped_eval by (simp_all add: wlist_def)
  show ?thesis
    using uev_timer_set_starts_timer [OF e(1) disjI1 [OF e(2)], of 50 0 "[]"] e by simp
qed

text \<open>
  C10. \<open>uev_event_stop\<close> called on a NULL pointer, or on a watcher whose active flag
  is not set, returns 0 and leaves the whole state as it was: no field of any watcher or
  context changes, and \<open>errno\<close> is not set.
\<close>

theorem uev_event_stop_inactive:
  "uev_event_stop None s = Some (0, s) \<and>
   (active (heap s a) \<le> 0 \<longrightarrow> uev_event_stop (Some a) s = Some (0, s))"
  by (simp add: uev_event_stop_def i_uev_watcher_active_def)

theorem uev_event_stop_inactive_witness:
  "active (heap s0 1) \<le> 0 \<and> uev_event_stop (Some 1) s0 = Some (0, s0)"
  using uev_event_stop_inactive [of s0 1] by (simp add: s0_def w0_def)

end
